theory Spec2Isabelle
  imports Main
begin

section \<open>JavaScript values used by the client\<close>

text \<open>
  The client is a JavaScript class. The few pieces of the language and of the Node
  library its methods rely on are written out here: the truth value of a string that may
  be \<open>null\<close>, the text a template literal produces for a number, Base64, and the two
  regular expressions with which the pagination loops cut the host off a \<open>next\<close> link.
  Strings are strings of ASCII characters. The numbers that reach the client
  (identifiers, checkpoints, \<open>expires_in\<close>, the clock) are integers, far below the
  \<open>2^53\<close> up to which a JavaScript number is exact and the \<open>10^21\<close> from which a
  template literal would print an exponent.
\<close>

datatype jsval = Str string | Num int

text \<open>\<open>null\<close> and the empty string are the falsy values of a nullable string.\<close>

definition truthy :: "string option \<Rightarrow> bool" where
  "truthy v = (case v of None \<Rightarrow> False | Some s \<Rightarrow> s \<noteq> [])"

text \<open>The operator \<open>!\<close> on a nullable string.\<close>

definition js_not :: "string option \<Rightarrow> bool" where
  "js_not v = (case v of None \<Rightarrow> True | Some s \<Rightarrow> s = [])"

definition digit :: "nat \<Rightarrow> char" where
  "digit d = ''0123456789'' ! d"

fun digits :: "nat \<Rightarrow> string" where
  "digits n = (if n < 10 then [digit n] else digits (n div 10) @ [digit (n mod 10)])"

declare digits.simps [simp del]

text \<open>\<open>`${n}`\<close> for an integer \<open>n\<close>.\<close>

definition number_to_string :: "int \<Rightarrow> string" where
  "number_to_string i = (if i < 0 then CHR ''-'' # digits (nat (- i)) else digits (nat i))"

text \<open>\<open>`${v}`\<close> for an option value, and for the token field, which may be \<open>null\<close>.\<close>

fun to_string :: "jsval \<Rightarrow> string" where
  "to_string (Str s) = s"
| "to_string (Num i) = number_to_string i"

definition bearer :: "string option \<Rightarrow> string" where
  "bearer t = (case t of None \<Rightarrow> ''null'' | Some s \<Rightarrow> s)"

subsection \<open>Base64\<close>

definition b64_alphabet :: string where
  "b64_alphabet = ''ABCDEFGHIJKLMNOPQRSTUVWXYZabcdefghijklmnopqrstuvwxyz0123456789+/''"

definition b64 :: "nat \<Rightarrow> char" where
  "b64 n = b64_alphabet ! (n mod 64)"

text \<open>Three bytes give four characters; one or two trailing bytes are padded with \<open>=\<close>.\<close>

fun base64_bytes :: "nat list \<Rightarrow> string" where
  "base64_bytes [] = []"
| "base64_bytes [a] = [b64 (a div 4), b64 ((a mod 4) * 16), CHR ''='', CHR ''='']"
| "base64_bytes [a, b] =
     [b64 (a div 4), b64 ((a mod 4) * 16 + b div 16), b64 ((b mod 16) * 4), CHR ''='']"
| "base64_bytes (a # b # c # rest) =
     [b64 (a div 4), b64 ((a mod 4) * 16 + b div 16), b64 ((b mod 16) * 4 + c div 64),
      b64 (c mod 64)] @ base64_bytes rest"

text \<open>\<open>Buffer.from(s, "utf8").toString("base64")\<close>.\<close>

definition base64 :: "string \<Rightarrow> string" where
  "base64 s = base64_bytes (map of_char s)"

subsection \<open>The regular expressions of the pagination loops\<close>

text \<open>
  Both classes call \<open>next.replace(re, "")\<close> with a regular expression built from
  literal characters, the dot, and a starred dot or a starred negated character. The
  matcher below is the backtracking one of the language for that fragment: a star is
  greedy and gives characters back one at a time, the dot matches any character but a
  line terminator (line feed and carriage return, among ASCII characters), and
  \<open>replace\<close> removes the leftmost match only.
\<close>

datatype cls = Dot | Ch char | NotCh char

fun cls_ok :: "cls \<Rightarrow> char \<Rightarrow> bool" where
  "cls_ok Dot c = (c \<noteq> CHR 0x0A \<and> c \<noteq> CHR 0x0D)"
| "cls_ok (Ch k) c = (c = k)"
| "cls_ok (NotCh k) c = (c \<noteq> k)"

datatype atom = One cls | Many cls

text \<open>\<open>match_here p s\<close> is what is left of \<open>s\<close> after the match of \<open>p\<close> at its start.\<close>

fun match_here :: "atom list \<Rightarrow> string \<Rightarrow> string option" where
  "match_here [] s = Some s"
| "match_here (One k # p) [] = None"
| "match_here (One k # p) (c # s) = (if cls_ok k c then match_here p s else None)"
| "match_here (Many k # p) [] = match_here p []"
| "match_here (Many k # p) (c # s) =
     (if cls_ok k c
      then (case match_here (Many k # p) s of
              Some r \<Rightarrow> Some r
            | None \<Rightarrow> match_here p (c # s))
      else match_here p (c # s))"

text \<open>\<open>s.replace(re, "")\<close>: the first position at which \<open>re\<close> matches loses the match.\<close>

fun replace_first :: "atom list \<Rightarrow> string \<Rightarrow> string" where
  "replace_first p [] = (case match_here p [] of Some r \<Rightarrow> r | None \<Rightarrow> [])"
| "replace_first p (c # s) =
     (case match_here p (c # s) of Some r \<Rightarrow> r | None \<Rightarrow> c # replace_first p s)"

definition lit :: "string \<Rightarrow> atom list" where
  "lit s = map (\<lambda>c. One (Ch c)) s"

text \<open>\<open>/.*vectra.ai\/api\/v3[^\/]*/\<close>, the expression of the first class.\<close>

definition re_api_v3 :: "atom list" where
  "re_api_v3 =
     [Many Dot] @ lit ''vectra'' @ [One Dot] @ lit ''ai/api/v3'' @ [Many (NotCh (CHR ''/''))]"

text \<open>\<open>/.*vectra.ai/\<close>, the expression of the second class.\<close>

definition re_host :: "atom list" where
  "re_host = [Many Dot] @ lit ''vectra'' @ [One Dot] @ lit ''ai''"

section \<open>The client object and the world around it\<close>

text \<open>The private fields of \<open>SaasClient\<close>, in the order the class declares them.\<close>

record client =
  tokenRefresh :: int
  siteURL :: string
  clientID :: string
  secret :: string
  sleepTime :: nat
  token :: "string option"
  version :: string

text \<open>
  The constructor of the first class; \<open>version\<close> defaults to 3. The second class has no
  version field and writes \<open>v3\<close> into every URL; its constructor is \<open>SaasClient2\<close>.
\<close>

definition SaasClient :: "string \<Rightarrow> string \<Rightarrow> string \<Rightarrow> int option \<Rightarrow> client" where
  "SaasClient site cid sec ver =
     \<lparr>tokenRefresh = 0, siteURL = site, clientID = cid, secret = sec, sleepTime = 500,
      token = None,
      version = ''v'' @ number_to_string (case ver of None \<Rightarrow> 3 | Some v \<Rightarrow> v)\<rparr>"

definition SaasClient2 :: "string \<Rightarrow> string \<Rightarrow> string \<Rightarrow> client" where
  "SaasClient2 site cid sec =
     \<lparr>tokenRefresh = 0, siteURL = site, clientID = cid, secret = sec, sleepTime = 500,
      token = None, version = ''v3''\<rparr>"

subsection \<open>Requests, replies and errors\<close>

datatype verb = GET | POST | PATCH | PUT | DELETE

text \<open>
  The \<open>data\<close> of a request: absent, the form of the token exchange, the object
  \<open>{tags: [...]}\<close>, or another JSON document.
\<close>

datatype 'a payload = NoData | Form string | Tags "string list" | Doc 'a

record 'a request =
  url :: string
  verb :: verb
  authorization :: string
  content_type :: "string option"
  payload :: "'a payload"

text \<open>
  The bodies the interface prescribes: the token grant, a page of a list, a page of an
  event stream, the tags of an entity, and any other document.
\<close>

datatype 'a body =
    TokenBody string int
  | PageBody "'a list" "string option"
  | EventsBody "'a list" int int
  | TagsBody "string list"
  | DocBody 'a

text \<open>
  What the server does with a request: it answers with a body, or the transport rejects,
  with the status line of a response when there was one. Either takes some milliseconds.
\<close>

datatype 'a reply = Reply nat "'a body" | Reject nat string "(int \<times> string) option"

text \<open>The \<open>response\<close> property of a transport error, as far as the client reads it.\<close>

record response =
  status :: int
  statusText :: string
  config_url :: string

text \<open>
  What a method can throw: the transport's own error, the plain object
  \<open>{status, statusText, url}\<close> the verbs build from it, and the \<open>TypeError\<close> of the
  language. \<open>OffContract\<close> is not a JavaScript error: it marks an execution in which the
  server sent a body of another shape than the interface prescribes for the request,
  which this model does not follow any further.
\<close>

datatype exn =
    AxiosError string "response option"
  | Normalized int string string
  | TypeError string
  | OffContract

text \<open>
  The world: the clock \<open>Date.now()\<close> reads (milliseconds) and the two endpoints. The
  token endpoint has a reply for each exchange, the \<open>n\<close>-th one being \<open>oauth n\<close>, and
  has received the requests \<open>exchanged\<close>. The API has a finite script of replies left
  and has received the requests \<open>sent\<close>; when its script is used up the connection fails.
\<close>

record 'a world =
  clock :: int
  oauth :: "nat \<Rightarrow> 'a reply"
  exchanged :: "'a request list"
  api :: "'a reply list"
  sent :: "'a request list"

text \<open>
  How the transport settles a request: a reply resolves with its body; a rejection
  throws the transport's error, whose response, when there is one, carries the request's
  configuration and so its URL.
\<close>

definition settle :: "'a reply \<Rightarrow> 'a request \<Rightarrow> nat \<times> (exn + 'a body)" where
  "settle r req =
     (case r of
        Reply d b \<Rightarrow> (d, Inr b)
      | Reject d code None \<Rightarrow> (d, Inl (AxiosError code None))
      | Reject d code (Some (st, txt)) \<Rightarrow>
          (d, Inl (AxiosError code
                 (Some \<lparr>status = st, statusText = txt, config_url = url req\<rparr>))))"

text \<open>\<open>axios(req)\<close> against the token endpoint and against the API.\<close>

definition axios_oauth :: "'a request \<Rightarrow> 'a world \<Rightarrow> (exn + 'a body) \<times> 'a world" where
  "axios_oauth req w =
     (case settle (oauth w (length (exchanged w))) req of
        (d, out) \<Rightarrow> (out, w\<lparr>clock := clock w + int d, exchanged := exchanged w @ [req]\<rparr>))"

definition axios_api :: "'a request \<Rightarrow> 'a world \<Rightarrow> (exn + 'a body) \<times> 'a world" where
  "axios_api req w =
     (case api w of
        [] \<Rightarrow> (Inl (AxiosError ''ECONNREFUSED'' None), w\<lparr>sent := sent w @ [req]\<rparr>)
      | r # rs \<Rightarrow>
          (case settle r req of
             (d, out) \<Rightarrow>
               (out, w\<lparr>clock := clock w + int d, api := rs, sent := sent w @ [req]\<rparr>)))"

text \<open>\<open>#sleep(timeout)\<close>: the timer fires after \<open>timeout\<close> milliseconds.\<close>

definition sleep :: "nat \<Rightarrow> 'a world \<Rightarrow> 'a world" where
  "sleep timeout w = w\<lparr>clock := clock w + int timeout\<rparr>"

section \<open>The token\<close>

definition token_request :: "client \<Rightarrow> 'a request" where
  "token_request c =
     \<lparr>url = siteURL c @ ''/oauth2/token'', verb = POST,
      authorization = ''Basic '' @ base64 (clientID c @ '':'' @ secret c),
      content_type = Some ''application/x-www-form-urlencoded'',
      payload = Form ''grant_type=client_credentials''\<rparr>"

text \<open>
  \<open>#getToken\<close> of the first class: the exchange, then
  \<open>tokenRefresh = Math.floor(Date.now() / 1000) + expires_in - 100\<close>.
\<close>

definition getToken :: "client \<Rightarrow> 'a world \<Rightarrow> (exn + string) \<times> client \<times> 'a world" where
  "getToken c w =
     (case axios_oauth (token_request c) w of
        (Inl err, w') \<Rightarrow> (Inl err, c, w')
      | (Inr (TokenBody access_token expires_in), w') \<Rightarrow>
          (Inr access_token,
           c\<lparr>tokenRefresh := clock w' div 1000 + expires_in - 100\<rparr>, w')
      | (Inr _, w') \<Rightarrow> (Inl OffContract, c, w'))"

text \<open>\<open>#getToken\<close> of the second class, which subtracts nothing.\<close>

definition getToken2 :: "client \<Rightarrow> 'a world \<Rightarrow> (exn + string) \<times> client \<times> 'a world" where
  "getToken2 c w =
     (case axios_oauth (token_request c) w of
        (Inl err, w') \<Rightarrow> (Inl err, c, w')
      | (Inr (TokenBody access_token expires_in), w') \<Rightarrow>
          (Inr access_token, c\<lparr>tokenRefresh := clock w' div 1000 + expires_in\<rparr>, w')
      | (Inr _, w') \<Rightarrow> (Inl OffContract, c, w'))"

text \<open>
  \<open>#checkToken\<close>: a new token when none is held or \<open>tokenRefresh\<close> is below the
  clock's second, then the pause; it returns \<open>true\<close>.
\<close>

definition checkToken :: "client \<Rightarrow> 'a world \<Rightarrow> (exn + bool) \<times> client \<times> 'a world" where
  "checkToken c w =
     (if js_not (token c) \<or> tokenRefresh c < clock w div 1000
      then (case getToken c w of
              (Inl err, c', w') \<Rightarrow> (Inl err, c', w')
            | (Inr t, c', w') \<Rightarrow>
                (Inr True, c'\<lparr>token := Some t\<rparr>, sleep (sleepTime c') w'))
      else (Inr True, c, sleep (sleepTime c) w))"

definition checkToken2 :: "client \<Rightarrow> 'a world \<Rightarrow> (exn + bool) \<times> client \<times> 'a world" where
  "checkToken2 c w =
     (if js_not (token c) \<or> tokenRefresh c < clock w div 1000
      then (case getToken2 c w of
              (Inl err, c', w') \<Rightarrow> (Inl err, c', w')
            | (Inr t, c', w') \<Rightarrow>
                (Inr True, c'\<lparr>token := Some t\<rparr>, sleep (sleepTime c') w'))
      else (Inr True, c, sleep (sleepTime c) w))"

section \<open>The five verbs\<close>

text \<open>
  The \<open>try\<close> block the verbs share: the token check, then one request to
  \<open>siteURL/api/version/url\<close> with the token as bearer credential.
\<close>

definition api_request :: "verb \<Rightarrow> string \<Rightarrow> 'a payload \<Rightarrow> client \<Rightarrow> 'a request" where
  "api_request m u b c =
     \<lparr>url = siteURL c @ ''/api/'' @ version c @ u, verb = m,
      authorization = ''Bearer '' @ bearer (token c), content_type = None, payload = b\<rparr>"

definition send :: "verb \<Rightarrow> string \<Rightarrow> 'a payload \<Rightarrow> client \<Rightarrow> 'a world \<Rightarrow>
    (exn + 'a body) \<times> client \<times> 'a world" where
  "send m u b c w =
     (case checkToken c w of
        (Inl err, c', w') \<Rightarrow> (Inl err, c', w')
      | (Inr ok, c', w') \<Rightarrow>
          (case axios_api (api_request m u b c') w' of (out, w'') \<Rightarrow> (out, c', w'')))"

text \<open>
  The two \<open>catch\<close> blocks of the first class. \<open>normalized\<close> is the one of \<open>#get\<close>,
  \<open>#post\<close> and \<open>#put\<close>: an error with a response is replaced by the plain object, any
  other is thrown again. \<open>rethrown\<close> is \<open>catch (err) { throw err; }\<close>.
\<close>

definition normalized :: "exn \<Rightarrow> exn" where
  "normalized err =
     (case err of
        AxiosError code (Some r) \<Rightarrow> Normalized (status r) (statusText r) (config_url r)
      | _ \<Rightarrow> err)"

definition rethrown :: "exn \<Rightarrow> exn" where
  "rethrown err = err"

definition catch :: "(exn \<Rightarrow> exn) \<Rightarrow> (exn + 'r) \<times> 's \<Rightarrow> (exn + 'r) \<times> 's" where
  "catch handler r = (case r of (Inl err, s) \<Rightarrow> (Inl (handler err), s) | (Inr v, s) \<Rightarrow> (Inr v, s))"

definition get :: "string \<Rightarrow> client \<Rightarrow> 'a world \<Rightarrow> (exn + 'a body) \<times> client \<times> 'a world" where
  "get u c w = catch normalized (send GET u NoData c w)"

definition post :: "string \<Rightarrow> 'a payload \<Rightarrow> client \<Rightarrow> 'a world \<Rightarrow>
    (exn + 'a body) \<times> client \<times> 'a world" where
  "post u b c w = catch normalized (send POST u b c w)"

definition patch :: "string \<Rightarrow> 'a payload \<Rightarrow> client \<Rightarrow> 'a world \<Rightarrow>
    (exn + 'a body) \<times> client \<times> 'a world" where
  "patch u b c w = catch rethrown (send PATCH u b c w)"

definition put :: "string \<Rightarrow> 'a payload \<Rightarrow> client \<Rightarrow> 'a world \<Rightarrow>
    (exn + 'a body) \<times> client \<times> 'a world" where
  "put u b c w = catch normalized (send PUT u b c w)"

definition delete :: "string \<Rightarrow> 'a payload \<Rightarrow> client \<Rightarrow> 'a world \<Rightarrow>
    (exn + 'a body) \<times> client \<times> 'a world" where
  "delete u b c w = catch rethrown (send DELETE u b c w)"

text \<open>
  The verbs of the second class have no \<open>try\<close> at all, write \<open>v3\<close> into the URL, and
  \<open>#delete\<close> takes no body.
\<close>

definition api_request2 :: "verb \<Rightarrow> string \<Rightarrow> 'a payload \<Rightarrow> client \<Rightarrow> 'a request" where
  "api_request2 m u b c =
     \<lparr>url = siteURL c @ ''/api/v3'' @ u, verb = m,
      authorization = ''Bearer '' @ bearer (token c), content_type = None, payload = b\<rparr>"

definition send2 :: "verb \<Rightarrow> string \<Rightarrow> 'a payload \<Rightarrow> client \<Rightarrow> 'a world \<Rightarrow>
    (exn + 'a body) \<times> client \<times> 'a world" where
  "send2 m u b c w =
     (case checkToken2 c w of
        (Inl err, c', w') \<Rightarrow> (Inl err, c', w')
      | (Inr ok, c', w') \<Rightarrow>
          (case axios_api (api_request2 m u b c') w' of (out, w'') \<Rightarrow> (out, c', w'')))"

definition get2 :: "string \<Rightarrow> client \<Rightarrow> 'a world \<Rightarrow> (exn + 'a body) \<times> client \<times> 'a world" where
  "get2 u c w = send2 GET u NoData c w"

definition delete2 :: "string \<Rightarrow> client \<Rightarrow> 'a world \<Rightarrow> (exn + 'a body) \<times> client \<times> 'a world" where
  "delete2 u c w = send2 DELETE u NoData c w"

section \<open>Checkpoint walks\<close>

text \<open>
  \<open>getAccountChanges\<close> and \<open>getDetectionChanges\<close> run the same loop on two topics:
  \<^verbatim>\<open>
  let results = [];
  let data = { remaining_count: 1, next_checkpoint: checkpoint };
  while (data.remaining_count > 0) {
    data = await this.#get(`/events/...?limit=1000&from=${data.next_checkpoint}`);
    results = results.concat(data.events);
  }
  return results;
  \<close>
  \<open>changes_while\<close> is the loop, with \<open>data.remaining_count\<close>, \<open>data.next_checkpoint\<close>
  and \<open>results\<close> as arguments. Every turn takes one reply off the script of the API or
  throws, which is why the loop ends.
\<close>

function changes_while :: "string \<Rightarrow> int \<Rightarrow> int \<Rightarrow> 'a list \<Rightarrow> client \<Rightarrow> 'a world \<Rightarrow>
    (exn + 'a list) \<times> client \<times> 'a world" where
  "changes_while topic remaining_count next_checkpoint results c w =
     (if remaining_count > 0
      then (case get (topic @ number_to_string next_checkpoint) c w of
              (Inl err, c', w') \<Rightarrow> (Inl err, c', w')
            | (Inr (EventsBody events remaining_count' next_checkpoint'), c', w') \<Rightarrow>
                changes_while topic remaining_count' next_checkpoint' (results @ events) c' w'
            | (Inr _, c', w') \<Rightarrow> (Inl OffContract, c', w'))
      else (Inr results, c, w))"
  by pat_completeness auto
termination
  by (relation "measure (\<lambda>(topic, rc, cp, results, c, w). length (api w))")
    (auto simp: get_def catch_def send_def checkToken_def getToken_def axios_api_def
      axios_oauth_def sleep_def settle_def
      split: prod.splits sum.splits if_splits list.splits body.splits reply.splits
        option.splits)

text \<open>The parameter \<open>checkpoint\<close> defaults to 0.\<close>

definition getAccountChanges :: "int option \<Rightarrow> client \<Rightarrow> 'a world \<Rightarrow>
    (exn + 'a list) \<times> client \<times> 'a world" where
  "getAccountChanges checkpoint c w =
     changes_while ''/events/account_scoring?limit=1000&from='' 1
       (case checkpoint of None \<Rightarrow> 0 | Some cp \<Rightarrow> cp) [] c w"

definition getDetectionChanges :: "int option \<Rightarrow> client \<Rightarrow> 'a world \<Rightarrow>
    (exn + 'a list) \<times> client \<times> 'a world" where
  "getDetectionChanges checkpoint c w =
     changes_while ''/events/account_detection?limit=1000&from='' 1
       (case checkpoint of None \<Rightarrow> 0 | Some cp \<Rightarrow> cp) [] c w"

section \<open>Page walks\<close>

text \<open>
  \<open>getAllDetections\<close> and \<open>getAllAccounts\<close> of the first class end in the same loop:
  \<^verbatim>\<open>
  while (data.next) {
    data = await this.#get(data.next.replace(/.*vectra.ai\/api\/v3[^\/]*/, ""), true);
    results = results.concat(data.results);
  }
  return results;
  \<close>
  \<open>pages_while\<close> is that loop, with \<open>data.next\<close> and \<open>results\<close> as arguments. The
  second argument of \<open>#get\<close> has no parameter to go to.
\<close>

function pages_while :: "string option \<Rightarrow> 'a list \<Rightarrow> client \<Rightarrow> 'a world \<Rightarrow>
    (exn + 'a list) \<times> client \<times> 'a world" where
  "pages_while nxt results c w =
     (case nxt of
        None \<Rightarrow> (Inr results, c, w)
      | Some u \<Rightarrow>
          if u = [] then (Inr results, c, w)
          else (case get (replace_first re_api_v3 u) c w of
                  (Inl err, c', w') \<Rightarrow> (Inl err, c', w')
                | (Inr (PageBody rs nxt'), c', w') \<Rightarrow> pages_while nxt' (results @ rs) c' w'
                | (Inr _, c', w') \<Rightarrow> (Inl OffContract, c', w')))"
  by pat_completeness auto
termination
  by (relation "measure (\<lambda>(nxt, results, c, w). length (api w))")
    (auto simp: get_def catch_def send_def checkToken_def getToken_def axios_api_def
      axios_oauth_def sleep_def settle_def
      split: prod.splits sum.splits if_splits list.splits body.splits reply.splits
        option.splits)

text \<open>
  The options are the object's own keys with their values, in the order \<open>Object.keys\<close>
  lists them; \<open>None\<close> is a call without the argument. The first class reads the keys only
  \<open>if (options)\<close>.
\<close>

definition query :: "(string \<times> jsval) list \<Rightarrow> string" where
  "query kvs = foldl (\<lambda>extra (option, v). extra @ ''&'' @ option @ ''='' @ to_string v) [] kvs"

definition getAllDetections :: "(string \<times> jsval) list option \<Rightarrow> client \<Rightarrow> 'a world \<Rightarrow>
    (exn + 'a list) \<times> client \<times> 'a world" where
  "getAllDetections options c w =
     (let extra = (case options of None \<Rightarrow> [] | Some kvs \<Rightarrow> query kvs)
      in pages_while (Some (''/detections?page=1'' @ extra)) [] c w)"

definition getAllAccounts :: "(string \<times> jsval) list option \<Rightarrow> client \<Rightarrow> 'a world \<Rightarrow>
    (exn + 'a list) \<times> client \<times> 'a world" where
  "getAllAccounts options c w =
     (let extra = (case options of None \<Rightarrow> [] | Some kvs \<Rightarrow> query kvs)
      in pages_while (Some (''/accounts?page=1'' @ extra)) [] c w)"

text \<open>
  The second class cuts the link with \<open>/.*vectra.ai/\<close> and calls \<open>Object.keys(options)\<close>
  without a test, which throws a \<open>TypeError\<close> when \<open>options\<close> is undefined.
\<close>

function pages_while2 :: "string option \<Rightarrow> 'a list \<Rightarrow> client \<Rightarrow> 'a world \<Rightarrow>
    (exn + 'a list) \<times> client \<times> 'a world" where
  "pages_while2 nxt results c w =
     (case nxt of
        None \<Rightarrow> (Inr results, c, w)
      | Some u \<Rightarrow>
          if u = [] then (Inr results, c, w)
          else (case get2 (replace_first re_host u) c w of
                  (Inl err, c', w') \<Rightarrow> (Inl err, c', w')
                | (Inr (PageBody rs nxt'), c', w') \<Rightarrow> pages_while2 nxt' (results @ rs) c' w'
                | (Inr _, c', w') \<Rightarrow> (Inl OffContract, c', w')))"
  by pat_completeness auto
termination
  by (relation "measure (\<lambda>(nxt, results, c, w). length (api w))")
    (auto simp: get2_def send2_def checkToken2_def getToken2_def axios_api_def
      axios_oauth_def sleep_def settle_def
      split: prod.splits sum.splits if_splits list.splits body.splits reply.splits
        option.splits)

definition getAllDetections2 :: "(string \<times> jsval) list option \<Rightarrow> client \<Rightarrow> 'a world \<Rightarrow>
    (exn + 'a list) \<times> client \<times> 'a world" where
  "getAllDetections2 options c w =
     (case options of
        None \<Rightarrow> (Inl (TypeError ''Cannot convert undefined or null to object''), c, w)
      | Some kvs \<Rightarrow> pages_while2 (Some (''/detections?page=1'' @ query kvs)) [] c w)"

definition getAllAccounts2 :: "(string \<times> jsval) list option \<Rightarrow> client \<Rightarrow> 'a world \<Rightarrow>
    (exn + 'a list) \<times> client \<times> 'a world" where
  "getAllAccounts2 options c w =
     (case options of
        None \<Rightarrow> (Inl (TypeError ''Cannot convert undefined or null to object''), c, w)
      | Some kvs \<Rightarrow> pages_while2 (Some (''/accounts?page=1'' @ query kvs)) [] c w)"

section \<open>Tags and triage rules\<close>

text \<open>\<open>getDetectionTags\<close> and \<open>getAccountTags\<close> return \<open>data.tags\<close>.\<close>

definition getDetectionTags :: "int \<Rightarrow> client \<Rightarrow> 'a world \<Rightarrow>
    (exn + string list) \<times> client \<times> 'a world" where
  "getDetectionTags detectionID c w =
     (case get (''/tagging/detection/'' @ number_to_string detectionID) c w of
        (Inl err, c', w') \<Rightarrow> (Inl err, c', w')
      | (Inr (TagsBody tags), c', w') \<Rightarrow> (Inr tags, c', w')
      | (Inr _, c', w') \<Rightarrow> (Inl OffContract, c', w'))"

definition getAccountTags :: "int \<Rightarrow> client \<Rightarrow> 'a world \<Rightarrow>
    (exn + string list) \<times> client \<times> 'a world" where
  "getAccountTags accountID c w =
     (case get (''/tagging/account/'' @ number_to_string accountID) c w of
        (Inl err, c', w') \<Rightarrow> (Inl err, c', w')
      | (Inr (TagsBody tags), c', w') \<Rightarrow> (Inr tags, c', w')
      | (Inr _, c', w') \<Rightarrow> (Inl OffContract, c', w'))"

text \<open>\<open>tags = tags.concat(existingTags)\<close>, then the \<open>PATCH\<close> of \<open>{tags: tags}\<close>.\<close>

definition addDetectionTags :: "int \<Rightarrow> string list \<Rightarrow> client \<Rightarrow> 'a world \<Rightarrow>
    (exn + 'a body) \<times> client \<times> 'a world" where
  "addDetectionTags detectionID tags c w =
     (case getDetectionTags detectionID c w of
        (Inl err, c', w') \<Rightarrow> (Inl err, c', w')
      | (Inr existingTags, c', w') \<Rightarrow>
          patch (''/tagging/detection/'' @ number_to_string detectionID)
            (Tags (tags @ existingTags)) c' w')"

definition addAccountTags :: "int \<Rightarrow> string list \<Rightarrow> client \<Rightarrow> 'a world \<Rightarrow>
    (exn + 'a body) \<times> client \<times> 'a world" where
  "addAccountTags accountID tags c w =
     (case getAccountTags accountID c w of
        (Inl err, c', w') \<Rightarrow> (Inl err, c', w')
      | (Inr existingTags, c', w') \<Rightarrow>
          patch (''/tagging/account/'' @ number_to_string accountID)
            (Tags (tags @ existingTags)) c' w')"

text \<open>
  The loop of the two removals,
  \<^verbatim>\<open>
  for (let i = existingTags.length - 1; i >= 0; i--) {
    if (existingTags[i] == tag) { existingTags.splice(i, 1); }
  }
  \<close>
  with \<open>splice xs i\<close> for \<open>xs.splice(i, 1)\<close> and \<open>remove_down n\<close> for the turns that are
  left when \<open>i = n - 1\<close>.
\<close>

definition splice :: "'b list \<Rightarrow> nat \<Rightarrow> 'b list" where
  "splice xs i = take i xs @ drop (Suc i) xs"

fun remove_down :: "nat \<Rightarrow> string \<Rightarrow> string list \<Rightarrow> string list" where
  "remove_down 0 tag existingTags = existingTags"
| "remove_down (Suc i) tag existingTags =
     remove_down i tag (if existingTags ! i = tag then splice existingTags i else existingTags)"

definition deleteDetectionTag :: "int \<Rightarrow> string \<Rightarrow> client \<Rightarrow> 'a world \<Rightarrow>
    (exn + 'a body) \<times> client \<times> 'a world" where
  "deleteDetectionTag detectionID tag c w =
     (case getDetectionTags detectionID c w of
        (Inl err, c', w') \<Rightarrow> (Inl err, c', w')
      | (Inr existingTags, c', w') \<Rightarrow>
          patch (''/tagging/detection/'' @ number_to_string detectionID)
            (Tags (remove_down (length existingTags) tag existingTags)) c' w')"

definition deleteAccountTag :: "int \<Rightarrow> string \<Rightarrow> client \<Rightarrow> 'a world \<Rightarrow>
    (exn + 'a body) \<times> client \<times> 'a world" where
  "deleteAccountTag accountID tag c w =
     (case getAccountTags accountID c w of
        (Inl err, c', w') \<Rightarrow> (Inl err, c', w')
      | (Inr existingTags, c', w') \<Rightarrow>
          patch (''/tagging/account/'' @ number_to_string accountID)
            (Tags (remove_down (length existingTags) tag existingTags)) c' w')"

text \<open>
  \<open>getTriageRule\<close> asks for \<open>`/rules/${ruleID}`\<close>; \<open>deleteTriageRule\<close>, in both classes,
  for \<open>`/rules${ruleID}`\<close>.
\<close>

definition getTriageRule :: "int \<Rightarrow> client \<Rightarrow> 'a world \<Rightarrow> (exn + 'a body) \<times> client \<times> 'a world" where
  "getTriageRule ruleID c w = get (''/rules/'' @ number_to_string ruleID) c w"

definition deleteTriageRule :: "int \<Rightarrow> client \<Rightarrow> 'a world \<Rightarrow>
    (exn + 'a body) \<times> client \<times> 'a world" where
  "deleteTriageRule ruleID c w = delete (''/rules'' @ number_to_string ruleID) NoData c w"

definition deleteTriageRule2 :: "int \<Rightarrow> client \<Rightarrow> 'a world \<Rightarrow>
    (exn + 'a body) \<times> client \<times> 'a world" where
  "deleteTriageRule2 ruleID c w = delete2 (''/rules'' @ number_to_string ruleID) c w"

section \<open>What the statements observe\<close>

text \<open>
  A reply of the token endpoint that grants a token; what a request asks for, without
  the credential it carries; and the prefix of every URL of the API.
\<close>

definition grants :: "'a reply \<Rightarrow> bool" where
  "grants r = (case r of Reply d (TokenBody t e) \<Rightarrow> True | _ \<Rightarrow> False)"

definition line :: "'a request \<Rightarrow> verb \<times> string \<times> 'a payload" where
  "line r = (verb r, url r, payload r)"

definition root :: "client \<Rightarrow> string" where
  "root c = siteURL c @ ''/api/'' @ version c"

section \<open>Example runs\<close>

text \<open>
  A client of the first class and one of the second, fresh from their constructors, and
  a world in which the token endpoint grants the token \<open>tok\<close> for an hour after 120 ms,
  the API follows a given script, and the clock stands at a given millisecond.
\<close>

definition brain :: client where
  "brain = SaasClient ''https://acme.portal.vectra.ai'' ''id'' ''secret'' None"

definition brain2 :: client where
  "brain2 = SaasClient2 ''https://acme.portal.vectra.ai'' ''id'' ''secret''"

definition world_at :: "int \<Rightarrow> nat reply list \<Rightarrow> nat world" where
  "world_at t script =
     \<lparr>clock = t, oauth = (\<lambda>n. Reply 120 (TokenBody ''tok'' 3600)), exchanged = [],
      api = script, sent = []\<rparr>"

text \<open>
  Three pages of a list with two, two and one results, and three pages of an event
  stream with five, three and no events; the first call of the token check on the fresh
  client, the client it leaves, and the world 900 seconds later; a token endpoint whose
  tokens live for 60 seconds; a client whose token expires in the very second the clock
  shows.
\<close>

definition three_pages :: "string \<Rightarrow> nat reply list" where
  "three_pages what =
     [Reply 40 (PageBody [1, 2]
        (Some (''https://acme.portal.vectra.ai/api/v3/'' @ what @ ''?page=2''))),
      Reply 40 (PageBody [3, 4]
        (Some (''https://acme.portal.vectra.ai/api/v3/'' @ what @ ''?page=3''))),
      Reply 40 (PageBody [5] None)]"

definition three_event_pages :: "nat reply list" where
  "three_event_pages =
     [Reply 40 (EventsBody [1, 2, 3, 4, 5] 5 105),
      Reply 40 (EventsBody [6, 7, 8] 3 108),
      Reply 40 (EventsBody [] 0 108)]"

definition first_call :: "(exn + bool) \<times> client \<times> nat world" where
  "first_call = checkToken brain (world_at 1700000000000 [])"

definition keeper :: client where
  "keeper = fst (snd first_call)"

definition later :: "nat world" where
  "later = (snd (snd first_call))\<lparr>clock := 1700000900000\<rparr>"

definition short_lived :: "nat world" where
  "short_lived =
     (world_at 1700000000000 [])\<lparr>oauth := (\<lambda>n. Reply 120 (TokenBody ''tok'' 60))\<rparr>"

definition on_the_second :: client where
  "on_the_second = brain\<lparr>token := Some ''tok'', tokenRefresh := 1700000000\<rparr>"

section \<open>The helpers compute what they should\<close>

declare changes_while.simps [simp del] pages_while.simps [simp del] pages_while2.simps [simp del]

lemma base64_examples:
  "base64 ''Man'' = ''TWFu''" "base64 ''a:b'' = ''YTpi''" "base64 ''ab'' = ''YWI=''"
  "base64 ''a'' = ''YQ==''"
  by (simp_all add: base64_def b64_def b64_alphabet_def)

lemma number_to_string_examples:
  "number_to_string 42 = ''42''" "number_to_string (- 1205) = ''-1205''"
  "number_to_string 0 = ''0''"
  by (simp_all add: number_to_string_def digits.simps digit_def)

text \<open>
  A fully qualified link loses everything up to the version segment; a path without a
  host is left as it is. The expression of the second class leaves the segments
  \<open>/api/v3\<close> in place.
\<close>

lemma replace_first_examples:
  "replace_first re_api_v3 ''https://acme.portal.vectra.ai/api/v3/detections?page=2''
     = ''/detections?page=2''"
  "replace_first re_api_v3 ''https://acme.portal.vectra.ai/api/v3.3/accounts?page=7''
     = ''/accounts?page=7''"
  "replace_first re_api_v3 ''/detections?page=1'' = ''/detections?page=1''"
  "replace_first re_host ''https://acme.portal.vectra.ai/api/v3/detections?page=2''
     = ''/api/v3/detections?page=2''"
  by (simp_all add: re_api_v3_def re_host_def lit_def)

lemma js_not_iff: "js_not v = (\<not> truthy v)"
  by (simp add: js_not_def truthy_def split: option.splits)

lemma snd_catch: "snd (catch handler r) = snd r"
  by (auto simp: catch_def split: prod.splits sum.splits)

section \<open>One call of a verb when the token endpoint grants\<close>

text \<open>
  When the token endpoint grants, the token check succeeds, whether it has to ask for a
  token or not, and leaves the API and the site of the client untouched.
\<close>

lemma checkToken_granted:
  assumes "grants (oauth w (length (exchanged w)))"
  shows "\<exists>c' w'. checkToken c w = (Inr True, c', w') \<and> siteURL c' = siteURL c \<and>
    version c' = version c \<and> api w' = api w \<and> sent w' = sent w \<and> oauth w' = oauth w"
  using assms
  by (auto simp: checkToken_def getToken_def axios_oauth_def settle_def sleep_def grants_def
      split: reply.splits body.splits)

text \<open>A verb then sends exactly one request, whatever the API answers.\<close>

lemma send_line:
  assumes "\<forall>n. grants (oauth w n)"
  shows "map line (sent (snd (snd (send m u b0 c w)))) = map line (sent w) @ [(m, root c @ u, b0)]"
proof -
  from assms have "grants (oauth w (length (exchanged w)))" by simp
  from checkToken_granted [OF this, of c] obtain c1 w1 where
    ck: "checkToken c w = (Inr True, c1, w1)" and fr: "siteURL c1 = siteURL c"
    "version c1 = version c" "sent w1 = sent w"
    by blast
  show ?thesis
    using ck fr
    by (simp add: send_def axios_api_def settle_def api_request_def line_def root_def
        split: list.splits prod.splits)
qed

lemma patch_line:
  assumes "\<forall>n. grants (oauth w n)"
  shows "map line (sent (snd (snd (patch u b0 c w)))) =
    map line (sent w) @ [(PATCH, root c @ u, b0)]"
  using send_line [OF assms, of PATCH u b0 c]
  by (simp add: patch_def snd_catch)

lemma delete_line:
  assumes "\<forall>n. grants (oauth w n)"
  shows "map line (sent (snd (snd (delete u b0 c w)))) =
    map line (sent w) @ [(DELETE, root c @ u, b0)]"
  using send_line [OF assms, of DELETE u b0 c]
  by (simp add: delete_def snd_catch)

text \<open>A \<open>GET\<close> that the API answers returns the body and takes the reply off the script.\<close>

lemma get_reply:
  assumes "\<forall>n. grants (oauth w n)" and "api w = Reply d b # rest"
  shows "\<exists>c' w'. get u c w = (Inr b, c', w') \<and> siteURL c' = siteURL c \<and>
    version c' = version c \<and> api w' = rest \<and> oauth w' = oauth w \<and>
    map line (sent w') = map line (sent w) @ [(GET, root c @ u, NoData)]"
proof -
  from assms(1) have "grants (oauth w (length (exchanged w)))" by simp
  from checkToken_granted [OF this, of c] obtain c1 w1 where
    ck: "checkToken c w = (Inr True, c1, w1)" and fr: "siteURL c1 = siteURL c"
    "version c1 = version c" "api w1 = api w" "sent w1 = sent w" "oauth w1 = oauth w"
    by blast
  show ?thesis
    using ck fr assms(2)
    by (simp add: get_def catch_def send_def axios_api_def settle_def api_request_def line_def
        root_def)
qed

section \<open>Adding and removing tags\<close>

text \<open>The loop of the removals filters the tag out, and so changes nothing without it.\<close>

lemma remove_down_filter:
  "n \<le> length xs \<Longrightarrow>
    remove_down n tag xs = filter (\<lambda>t. t \<noteq> tag) (take n xs) @ drop n xs"
proof (induction n arbitrary: xs)
  case 0
  then show ?case by simp
next
  case (Suc n)
  then have n: "n < length xs" by simp
  show ?case
  proof (cases "xs ! n = tag")
    case True
    have "n \<le> length (splice xs n)" using n by (simp add: splice_def)
    from Suc.IH [OF this] True n show ?thesis
      by (simp add: splice_def take_Suc_conv_app_nth)
  next
    case False
    have "n \<le> length xs" using n by simp
    from Suc.IH [OF this] False n show ?thesis
      by (simp add: take_Suc_conv_app_nth Cons_nth_drop_Suc)
  qed
qed

lemma remove_down_all: "remove_down (length xs) tag xs = filter (\<lambda>t. t \<noteq> tag) xs"
  by (simp add: remove_down_filter)

lemma remove_down_absent: "tag \<notin> set xs \<Longrightarrow> remove_down (length xs) tag xs = xs"
  by (auto simp: remove_down_all filter_id_conv)

text \<open>
  C9. For every current tag set and every tag that is not in it, \<open>deleteDetectionTag\<close>
  and \<open>deleteAccountTag\<close> compute a tag set identical to the current one: after the
  \<open>GET\<close> that fetched the tags, the \<open>PATCH\<close> they send carries the fetched tags
  unchanged. (The token endpoint is assumed to grant, and the API to answer the \<open>GET\<close>
  with the tags; what it answers to the \<open>PATCH\<close> does not matter.)
\<close>

theorem removing_an_absent_tag_patches_the_same_tags:
  assumes "\<forall>n. grants (oauth w n)"
    and "api w = Reply d (TagsBody existingTags) # rest"
    and "tag \<notin> set existingTags"
  shows "map line (sent (snd (snd (deleteDetectionTag detectionID tag c w)))) =
      map line (sent w) @
        [(GET, root c @ ''/tagging/detection/'' @ number_to_string detectionID, NoData),
         (PATCH, root c @ ''/tagging/detection/'' @ number_to_string detectionID,
          Tags existingTags)] \<and>
    map line (sent (snd (snd (deleteAccountTag accountID tag c w)))) =
      map line (sent w) @
        [(GET, root c @ ''/tagging/account/'' @ number_to_string accountID, NoData),
         (PATCH, root c @ ''/tagging/account/'' @ number_to_string accountID,
          Tags existingTags)]"
proof
  let ?u = "''/tagging/detection/'' @ number_to_string detectionID"
  from get_reply [OF assms(1,2), of ?u c] obtain c1 w1 where
    g: "get ?u c w = (Inr (TagsBody existingTags), c1, w1)" and
    fr: "siteURL c1 = siteURL c" "version c1 = version c" "oauth w1 = oauth w"
      "map line (sent w1) = map line (sent w) @ [(GET, root c @ ?u, NoData)]"
    by blast
  have h: "\<forall>n. grants (oauth w1 n)" using assms(1) fr(3) by simp
  show "map line (sent (snd (snd (deleteDetectionTag detectionID tag c w)))) =
      map line (sent w) @ [(GET, root c @ ?u, NoData), (PATCH, root c @ ?u, Tags existingTags)]"
    using g fr patch_line [OF h, of ?u "Tags existingTags" c1] remove_down_absent [OF assms(3)]
    by (simp add: deleteDetectionTag_def getDetectionTags_def root_def)
next
  let ?u = "''/tagging/account/'' @ number_to_string accountID"
  from get_reply [OF assms(1,2), of ?u c] obtain c1 w1 where
    g: "get ?u c w = (Inr (TagsBody existingTags), c1, w1)" and
    fr: "siteURL c1 = siteURL c" "version c1 = version c" "oauth w1 = oauth w"
      "map line (sent w1) = map line (sent w) @ [(GET, root c @ ?u, NoData)]"
    by blast
  have h: "\<forall>n. grants (oauth w1 n)" using assms(1) fr(3) by simp
  show "map line (sent (snd (snd (deleteAccountTag accountID tag c w)))) =
      map line (sent w) @ [(GET, root c @ ?u, NoData), (PATCH, root c @ ?u, Tags existingTags)]"
    using g fr patch_line [OF h, of ?u "Tags existingTags" c1] remove_down_absent [OF assms(3)]
    by (simp add: deleteAccountTag_def getAccountTags_def root_def)
qed

text \<open>
  The theorem at work: the detection 7 and the account 8 carry the tags \<open>red\<close> and
  \<open>blue\<close>, and the tag \<open>gone\<close> is removed.
\<close>

theorem removing_an_absent_tag_witness:
  "(\<forall>n. grants (oauth (world_at 1700000000000 [Reply 30 (TagsBody [''red'', ''blue''])]) n)) \<and>
   ''gone'' \<notin> set [''red'', ''blue''] \<and>
   map line (sent (snd (snd (deleteDetectionTag 7 ''gone'' brain
       (world_at 1700000000000 [Reply 30 (TagsBody [''red'', ''blue''])]))))) =
      [(GET, ''https://acme.portal.vectra.ai/api/v3/tagging/detection/7'', NoData),
       (PATCH, ''https://acme.portal.vectra.ai/api/v3/tagging/detection/7'',
        Tags [''red'', ''blue''])] \<and>
   map line (sent (snd (snd (deleteAccountTag 8 ''gone'' brain
       (world_at 1700000000000 [Reply 30 (TagsBody [''red'', ''blue''])]))))) =
      [(GET, ''https://acme.portal.vectra.ai/api/v3/tagging/account/8'', NoData),
       (PATCH, ''https://acme.portal.vectra.ai/api/v3/tagging/account/8'',
        Tags [''red'', ''blue''])]"
  using removing_an_absent_tag_patches_the_same_tags
    [of "world_at 1700000000000 [Reply 30 (TagsBody [''red'', ''blue''])]" 30
      "[''red'', ''blue'']" "[]" "''gone''" 7 brain 8]
  by (simp add: world_at_def grants_def brain_def SaasClient_def root_def number_to_string_def
      digits.simps digit_def)

text \<open>
  C7, as the code has it. For every entity and every list of new tags,
  \<open>addDetectionTags\<close> and \<open>addAccountTags\<close> read, modify and write: they fetch the
  current tags with a \<open>GET\<close> and then send a \<open>PATCH\<close> whose body is \<open>{tags: [...]}\<close>
  with the supplied tags first and the existing tags after them. (The claim has the
  supplied tags after the existing ones.)
\<close>

theorem adding_tags_puts_the_new_tags_first:
  assumes "\<forall>n. grants (oauth w n)"
    and "api w = Reply d (TagsBody existingTags) # rest"
  shows "map line (sent (snd (snd (addDetectionTags detectionID tags c w)))) =
      map line (sent w) @
        [(GET, root c @ ''/tagging/detection/'' @ number_to_string detectionID, NoData),
         (PATCH, root c @ ''/tagging/detection/'' @ number_to_string detectionID,
          Tags (tags @ existingTags))] \<and>
    map line (sent (snd (snd (addAccountTags accountID tags c w)))) =
      map line (sent w) @
        [(GET, root c @ ''/tagging/account/'' @ number_to_string accountID, NoData),
         (PATCH, root c @ ''/tagging/account/'' @ number_to_string accountID,
          Tags (tags @ existingTags))]"
proof
  let ?u = "''/tagging/detection/'' @ number_to_string detectionID"
  from get_reply [OF assms, of ?u c] obtain c1 w1 where
    g: "get ?u c w = (Inr (TagsBody existingTags), c1, w1)" and
    fr: "siteURL c1 = siteURL c" "version c1 = version c" "oauth w1 = oauth w"
      "map line (sent w1) = map line (sent w) @ [(GET, root c @ ?u, NoData)]"
    by blast
  have h: "\<forall>n. grants (oauth w1 n)" using assms(1) fr(3) by simp
  show "map line (sent (snd (snd (addDetectionTags detectionID tags c w)))) =
      map line (sent w) @
        [(GET, root c @ ?u, NoData), (PATCH, root c @ ?u, Tags (tags @ existingTags))]"
    using g fr patch_line [OF h, of ?u "Tags (tags @ existingTags)" c1]
    by (simp add: addDetectionTags_def getDetectionTags_def root_def)
next
  let ?u = "''/tagging/account/'' @ number_to_string accountID"
  from get_reply [OF assms, of ?u c] obtain c1 w1 where
    g: "get ?u c w = (Inr (TagsBody existingTags), c1, w1)" and
    fr: "siteURL c1 = siteURL c" "version c1 = version c" "oauth w1 = oauth w"
      "map line (sent w1) = map line (sent w) @ [(GET, root c @ ?u, NoData)]"
    by blast
  have h: "\<forall>n. grants (oauth w1 n)" using assms(1) fr(3) by simp
  show "map line (sent (snd (snd (addAccountTags accountID tags c w)))) =
      map line (sent w) @
        [(GET, root c @ ?u, NoData), (PATCH, root c @ ?u, Tags (tags @ existingTags))]"
    using g fr patch_line [OF h, of ?u "Tags (tags @ existingTags)" c1]
    by (simp add: addAccountTags_def getAccountTags_def root_def)
qed

text \<open>The theorem at work: the entity carries \<open>old\<close>, and \<open>new\<close> is added.\<close>

theorem adding_tags_witness:
  "(\<forall>n. grants (oauth (world_at 1700000000000 [Reply 30 (TagsBody [''old''])]) n)) \<and>
   map line (sent (snd (snd (addDetectionTags 7 [''new''] brain
       (world_at 1700000000000 [Reply 30 (TagsBody [''old''])]))))) =
      [(GET, ''https://acme.portal.vectra.ai/api/v3/tagging/detection/7'', NoData),
       (PATCH, ''https://acme.portal.vectra.ai/api/v3/tagging/detection/7'',
        Tags [''new'', ''old''])] \<and>
   map line (sent (snd (snd (addAccountTags 8 [''new''] brain
       (world_at 1700000000000 [Reply 30 (TagsBody [''old''])]))))) =
      [(GET, ''https://acme.portal.vectra.ai/api/v3/tagging/account/8'', NoData),
       (PATCH, ''https://acme.portal.vectra.ai/api/v3/tagging/account/8'',
        Tags [''new'', ''old''])]"
  using adding_tags_puts_the_new_tags_first
    [of "world_at 1700000000000 [Reply 30 (TagsBody [''old''])]" 30 "[''old'']" "[]" 7
      "[''new'']" brain 8]
  by (simp add: world_at_def grants_def brain_def SaasClient_def root_def number_to_string_def
      digits.simps digit_def)

text \<open>
  In the same run the body of the \<open>PATCH\<close> is not the existing tags followed by the
  supplied ones, which is what C7 says it is.
\<close>

theorem adding_tags_counterexample:
  "payload (last (sent (snd (snd (addDetectionTags 7 [''new''] brain
       (world_at 1700000000000 [Reply 30 (TagsBody [''old''])])))))) \<noteq> Tags ([''old''] @ [''new'']) \<and>
   payload (last (sent (snd (snd (addAccountTags 8 [''new''] brain
       (world_at 1700000000000 [Reply 30 (TagsBody [''old''])])))))) \<noteq> Tags ([''old''] @ [''new''])"
  by code_simp

section \<open>Deleting a triage rule\<close>

lemma deleteTriageRule_line:
  assumes "\<forall>n. grants (oauth w n)"
  shows "map line (sent (snd (snd (deleteTriageRule ruleID c w)))) =
    map line (sent w) @ [(DELETE, root c @ ''/rules'' @ number_to_string ruleID, NoData)]"
  using delete_line [OF assms] by (simp add: deleteTriageRule_def)

text \<open>
  C8. The claim is that \<open>deleteTriageRule\<close> sends its \<open>DELETE\<close> to
  \<open>siteURL/api/version/rules/ruleID\<close>. In both classes the template is
  \<open>`/rules${ruleID}`\<close>: for the rule 42 the request goes to \<open>.../rules42\<close>, while
  \<open>getTriageRule\<close>, next to it, asks for \<open>.../rules/42\<close>.
\<close>

theorem deleteTriageRule_leaves_the_slash_out:
  "map line (sent (snd (snd (deleteTriageRule 42 brain (world_at 1700000000000 [Reply 80 (DocBody 0)])))))
     = [(DELETE, ''https://acme.portal.vectra.ai/api/v3/rules42'', NoData)] \<and>
   map line (sent (snd (snd (deleteTriageRule2 42 brain2 (world_at 1700000000000 [Reply 80 (DocBody 0)])))))
     = [(DELETE, ''https://acme.portal.vectra.ai/api/v3/rules42'', NoData)] \<and>
   map line (sent (snd (snd (getTriageRule 42 brain (world_at 1700000000000 [Reply 80 (DocBody 0)])))))
     = [(GET, ''https://acme.portal.vectra.ai/api/v3/rules/42'', NoData)]"
  by code_simp

section \<open>Errors of the verbs\<close>

text \<open>
  \<open>#get\<close>, \<open>#post\<close> and \<open>#put\<close> never throw a transport error that has a response:
  they throw the plain object built from it, and throw any other error as it came.
  \<open>#patch\<close> and \<open>#delete\<close> throw whatever came.
\<close>

lemma normalized_shape: "normalized err \<noteq> AxiosError code (Some r)"
  by (simp add: normalized_def split: exn.splits option.splits)

lemma normalized_response:
  "normalized (AxiosError code (Some r)) = Normalized (status r) (statusText r) (config_url r)"
  by (simp add: normalized_def)

lemma normalized_no_response: "normalized (AxiosError code None) = AxiosError code None"
  by (simp add: normalized_def)

lemma get_post_put_normalize:
  "fst (get u c w) \<noteq> Inl (AxiosError code (Some r))"
  "fst (post u b c w) \<noteq> Inl (AxiosError code (Some r))"
  "fst (put u b c w) \<noteq> Inl (AxiosError code (Some r))"
  by (auto simp: get_def post_def put_def catch_def normalized_shape split: prod.splits sum.splits)

lemma patch_delete_rethrow:
  "patch u b c w = send PATCH u b c w" "delete u b c w = send DELETE u b c w"
  by (auto simp: patch_def delete_def catch_def rethrown_def split: prod.splits sum.splits)

text \<open>
  On a rejection by the API that has a response, the three put the status, the status
  text and the URL of the request into the object; the two pass the transport's error
  on. On a rejection without a response all five pass the transport's error on.
\<close>

lemma send_rejected:
  assumes "\<forall>n. grants (oauth w n)" and "api w = Reject d code resp # rest"
  shows "fst (send m u b c w) =
    Inl (AxiosError code (case resp of None \<Rightarrow> None
      | Some (st, txt) \<Rightarrow> Some \<lparr>status = st, statusText = txt, config_url = root c @ u\<rparr>))"
proof -
  from assms(1) have "grants (oauth w (length (exchanged w)))" by simp
  from checkToken_granted [OF this, of c] obtain c1 w1 where
    ck: "checkToken c w = (Inr True, c1, w1)" and fr: "siteURL c1 = siteURL c"
    "version c1 = version c" "api w1 = api w"
    by blast
  show ?thesis
    using ck fr assms(2)
    by (simp add: send_def axios_api_def settle_def api_request_def root_def
        split: option.splits)
qed

lemma three_verbs_normalize:
  assumes "\<forall>n. grants (oauth w n)" and "api w = Reject d code (Some (st, txt)) # rest"
  shows "fst (get u c w) = Inl (Normalized st txt (root c @ u))"
    and "fst (post u b c w) = Inl (Normalized st txt (root c @ u))"
    and "fst (put u b c w) = Inl (Normalized st txt (root c @ u))"
  using send_rejected [OF assms, of GET u NoData c] send_rejected [OF assms, of POST u b c]
    send_rejected [OF assms, of PUT u b c]
  by (auto simp: get_def post_def put_def catch_def normalized_def split: prod.splits sum.splits)

lemma two_verbs_do_not:
  assumes "\<forall>n. grants (oauth w n)" and "api w = Reject d code (Some (st, txt)) # rest"
  shows "fst (patch u b c w) = Inl (AxiosError code
      (Some \<lparr>status = st, statusText = txt, config_url = root c @ u\<rparr>))"
    and "fst (delete u b c w) = Inl (AxiosError code
      (Some \<lparr>status = st, statusText = txt, config_url = root c @ u\<rparr>))"
  using send_rejected [OF assms, of PATCH u b c] send_rejected [OF assms, of DELETE u b c]
  by (simp_all add: patch_delete_rethrow)

lemma five_verbs_rethrow_without_response:
  assumes "\<forall>n. grants (oauth w n)" and "api w = Reject d code None # rest"
  shows "fst (get u c w) = Inl (AxiosError code None)"
    and "fst (post u b c w) = Inl (AxiosError code None)"
    and "fst (patch u b c w) = Inl (AxiosError code None)"
    and "fst (put u b c w) = Inl (AxiosError code None)"
    and "fst (delete u b c w) = Inl (AxiosError code None)"
  using send_rejected [OF assms, of GET u NoData c] send_rejected [OF assms, of POST u b c]
    send_rejected [OF assms, of PUT u b c] send_rejected [OF assms, of PATCH u b c]
    send_rejected [OF assms, of DELETE u b c]
  by (auto simp: get_def post_def put_def patch_delete_rethrow catch_def normalized_def
      split: prod.splits sum.splits)

text \<open>
  C6. The claim is that each of the five verbs, when the transport fails with a
  response, throws the plain object with the status, the status text and the URL, and
  never the transport's own error. \<open>#patch\<close> and \<open>#delete\<close> do not: on a 404 they throw
  the transport's error with its response inside, where \<open>#get\<close> throws
  \<open>{status: 404, statusText: "Not Found", url}\<close>.
\<close>

theorem patch_and_delete_throw_the_transport_error:
  "fst (patch ''/tagging/detection/999'' (Tags []) brain
      (world_at 1700000000000 [Reject 35 ''ERR_BAD_REQUEST'' (Some (404, ''Not Found''))]))
     = Inl (AxiosError ''ERR_BAD_REQUEST''
         (Some \<lparr>status = 404, statusText = ''Not Found'',
            config_url = ''https://acme.portal.vectra.ai/api/v3/tagging/detection/999''\<rparr>)) \<and>
   fst (delete ''/detections/999/notes/1'' NoData brain
      (world_at 1700000000000 [Reject 35 ''ERR_BAD_REQUEST'' (Some (404, ''Not Found''))]))
     = Inl (AxiosError ''ERR_BAD_REQUEST''
         (Some \<lparr>status = 404, statusText = ''Not Found'',
            config_url = ''https://acme.portal.vectra.ai/api/v3/detections/999/notes/1''\<rparr>)) \<and>
   fst (get ''/detections/999'' brain
      (world_at 1700000000000 [Reject 35 ''ERR_BAD_REQUEST'' (Some (404, ''Not Found''))]))
     = Inl (Normalized 404 ''Not Found'' ''https://acme.portal.vectra.ai/api/v3/detections/999'')"
  by code_simp

section \<open>Absent options\<close>

text \<open>With an empty options object the second class, too, asks for \<open>?page=1\<close>.\<close>

lemma second_class_empty_options:
  "map line (sent (snd (snd (getAllDetections2 (Some []) brain2
      (world_at 1700000000000 [Reply 40 (PageBody [1] None)])))))
     = [(GET, ''https://acme.portal.vectra.ai/api/v3/detections?page=1'', NoData)]"
  "map line (sent (snd (snd (getAllAccounts2 (Some []) brain2
      (world_at 1700000000000 [Reply 40 (PageBody [1] None)])))))
     = [(GET, ''https://acme.portal.vectra.ai/api/v3/accounts?page=1'', NoData)]"
  by code_simp+

text \<open>
  C10. The claim is that \<open>getAllDetections({})\<close> and \<open>getAllAccounts()\<close> ask for
  \<open>/detections?page=1\<close> and \<open>/accounts?page=1\<close> and do not fail on the absent options.
  In the second class \<open>getAllAccounts()\<close> and \<open>getAllDetections()\<close> throw a
  \<open>TypeError\<close> before any request: \<open>Object.keys(options)\<close> is called without the test
  \<open>if (options)\<close> that the first class has.
\<close>

theorem second_class_needs_the_options:
  "getAllAccounts2 None c w = (Inl (TypeError ''Cannot convert undefined or null to object''), c, w) \<and>
   getAllDetections2 None c w = (Inl (TypeError ''Cannot convert undefined or null to object''), c, w)"
  by (simp add: getAllAccounts2_def getAllDetections2_def)

text \<open>
  With an empty options object, and in the first class without any options, the first
  request goes to \<open>?page=1\<close> with nothing after it.
\<close>

lemma query_empty: "query [] = []"
  by (simp add: query_def)

section \<open>Page walks run to the last page\<close>

text \<open>
  The loop on a script that begins with the pages of a list: every page but the last
  links to a next one, the last has \<open>next = null\<close>. A link is a URL and so not empty.
\<close>

lemma pages_while_walk:
  assumes "\<forall>n. grants (oauth w n)"
    and "api w = map (\<lambda>(d, rs, u). Reply d (PageBody rs (Some u))) ps
           @ Reply dl (PageBody rsl None) # rest"
    and "list_all (\<lambda>(d, rs, u). u \<noteq> []) ps"
    and "u0 \<noteq> []"
  shows "\<exists>c' w'. pages_while (Some u0) results c w
        = (Inr (results @ concat (map (\<lambda>(d, rs, u). rs) ps) @ rsl), c', w') \<and>
      api w' = rest \<and>
      map line (sent w') = map line (sent w)
        @ map (\<lambda>u. (GET, root c @ replace_first re_api_v3 u, NoData))
            (u0 # map (\<lambda>(d, rs, u). u) ps)"
  using assms
proof (induction ps arbitrary: u0 results c w)
  case Nil
  from Nil.prems(2) have "api w = Reply dl (PageBody rsl None) # rest" by simp
  from get_reply [OF Nil.prems(1) this, of "replace_first re_api_v3 u0" c]
  show ?case using Nil.prems(4)
    by (auto simp: pages_while.simps [of "Some u0"] pages_while.simps [of None])
next
  case (Cons p ps)
  obtain d rs u where p: "p = (d, rs, u)" by (cases p)
  from Cons.prems(2) p have "api w = Reply d (PageBody rs (Some u))
     # (map (\<lambda>(d, rs, u). Reply d (PageBody rs (Some u))) ps @ Reply dl (PageBody rsl None) # rest)"
    by simp
  from get_reply [OF Cons.prems(1) this, of "replace_first re_api_v3 u0" c]
  obtain c1 w1 where g: "get (replace_first re_api_v3 u0) c w = (Inr (PageBody rs (Some u)), c1, w1)"
    and fr: "siteURL c1 = siteURL c" "version c1 = version c"
      "api w1 = map (\<lambda>(d, rs, u). Reply d (PageBody rs (Some u))) ps @ Reply dl (PageBody rsl None) # rest"
      "oauth w1 = oauth w"
      "map line (sent w1) = map line (sent w) @ [(GET, root c @ replace_first re_api_v3 u0, NoData)]"
    by blast
  have h1: "\<forall>n. grants (oauth w1 n)" using Cons.prems(1) fr(4) by simp
  have h3: "list_all (\<lambda>(d, rs, u). u \<noteq> []) ps" and h4: "u \<noteq> []"
    using Cons.prems(3) p by simp_all
  from Cons.IH [OF h1 fr(3) h3 h4, of "results @ rs" c1]
  show ?case using g fr Cons.prems(4) p
    by (auto simp: pages_while.simps [of "Some u0"] root_def)
qed

text \<open>
  C1. For every finite sequence of pages that the API serves, \<open>getAllDetections\<close> and
  \<open>getAllAccounts\<close> return the results of all pages, concatenated in the order of
  arrival; they send exactly one \<open>GET\<close> for each page, the first to \<open>?page=1\<close> with the
  options and each later one to the link of the page before, cut down to its path; and
  they stop at the first page whose \<open>next\<close> is \<open>null\<close>, leaving the rest of the
  script alone. (The pages before the last carry a link, which is a URL and therefore a
  non-empty string; the token endpoint is assumed to grant.)
\<close>

theorem page_walk:
  assumes "\<forall>n. grants (oauth w n)"
    and "api w = map (\<lambda>(d, rs, u). Reply d (PageBody rs (Some u))) ps
           @ Reply dl (PageBody rsl None) # rest"
    and "list_all (\<lambda>(d, rs, u). u \<noteq> []) ps"
  shows "(\<exists>c' w'. getAllDetections options c w
        = (Inr (concat (map (\<lambda>(d, rs, u). rs) ps) @ rsl), c', w') \<and>
      api w' = rest \<and> length (sent w') = length (sent w) + length ps + 1 \<and>
      map line (sent w') = map line (sent w)
        @ map (\<lambda>u. (GET, root c @ replace_first re_api_v3 u, NoData))
            ((''/detections?page=1'' @ (case options of None \<Rightarrow> [] | Some kvs \<Rightarrow> query kvs))
              # map (\<lambda>(d, rs, u). u) ps)) \<and>
    (\<exists>c' w'. getAllAccounts options c w
        = (Inr (concat (map (\<lambda>(d, rs, u). rs) ps) @ rsl), c', w') \<and>
      api w' = rest \<and> length (sent w') = length (sent w) + length ps + 1 \<and>
      map line (sent w') = map line (sent w)
        @ map (\<lambda>u. (GET, root c @ replace_first re_api_v3 u, NoData))
            ((''/accounts?page=1'' @ (case options of None \<Rightarrow> [] | Some kvs \<Rightarrow> query kvs))
              # map (\<lambda>(d, rs, u). u) ps))"
proof
  let ?u0 = "''/detections?page=1'' @ (case options of None \<Rightarrow> [] | Some kvs \<Rightarrow> query kvs)"
  have "?u0 \<noteq> []" by simp
  from pages_while_walk [OF assms this, of "[]" c] obtain c' w' where
    r: "pages_while (Some ?u0) [] c w = (Inr (concat (map (\<lambda>(d, rs, u). rs) ps) @ rsl), c', w')"
      "api w' = rest"
      "map line (sent w') = map line (sent w)
        @ map (\<lambda>u. (GET, root c @ replace_first re_api_v3 u, NoData))
            (?u0 # map (\<lambda>(d, rs, u). u) ps)"
    by auto
  from r(3) have "length (map line (sent w')) = length (sent w) + length ps + 1"
    by simp
  then have "length (sent w') = length (sent w) + length ps + 1" by simp
  with r show "\<exists>c' w'. getAllDetections options c w
        = (Inr (concat (map (\<lambda>(d, rs, u). rs) ps) @ rsl), c', w') \<and>
      api w' = rest \<and> length (sent w') = length (sent w) + length ps + 1 \<and>
      map line (sent w') = map line (sent w)
        @ map (\<lambda>u. (GET, root c @ replace_first re_api_v3 u, NoData))
            (?u0 # map (\<lambda>(d, rs, u). u) ps)"
    by (simp add: getAllDetections_def)
next
  let ?u0 = "''/accounts?page=1'' @ (case options of None \<Rightarrow> [] | Some kvs \<Rightarrow> query kvs)"
  have "?u0 \<noteq> []" by simp
  from pages_while_walk [OF assms this, of "[]" c] obtain c' w' where
    r: "pages_while (Some ?u0) [] c w = (Inr (concat (map (\<lambda>(d, rs, u). rs) ps) @ rsl), c', w')"
      "api w' = rest"
      "map line (sent w') = map line (sent w)
        @ map (\<lambda>u. (GET, root c @ replace_first re_api_v3 u, NoData))
            (?u0 # map (\<lambda>(d, rs, u). u) ps)"
    by auto
  from r(3) have "length (map line (sent w')) = length (sent w) + length ps + 1"
    by simp
  then have "length (sent w') = length (sent w) + length ps + 1" by simp
  with r show "\<exists>c' w'. getAllAccounts options c w
        = (Inr (concat (map (\<lambda>(d, rs, u). rs) ps) @ rsl), c', w') \<and>
      api w' = rest \<and> length (sent w') = length (sent w) + length ps + 1 \<and>
      map line (sent w') = map line (sent w)
        @ map (\<lambda>u. (GET, root c @ replace_first re_api_v3 u, NoData))
            (?u0 # map (\<lambda>(d, rs, u). u) ps)"
    by (simp add: getAllAccounts_def)
qed

text \<open>
  The theorem at work on three pages with two, two and one results: five results come
  back, in order, after exactly three requests.
\<close>

theorem page_walk_witness:
  "(\<exists>c' w'. getAllDetections (Some []) brain (world_at 1700000000000 (three_pages ''detections''))
        = (Inr [1, 2, 3, 4, 5], c', w') \<and>
      api w' = [] \<and> length (sent w') = 3 \<and>
      map line (sent w') =
        [(GET, ''https://acme.portal.vectra.ai/api/v3/detections?page=1'', NoData),
         (GET, ''https://acme.portal.vectra.ai/api/v3/detections?page=2'', NoData),
         (GET, ''https://acme.portal.vectra.ai/api/v3/detections?page=3'', NoData)]) \<and>
   (\<exists>c' w'. getAllAccounts None brain (world_at 1700000000000 (three_pages ''accounts''))
        = (Inr [1, 2, 3, 4, 5], c', w') \<and>
      api w' = [] \<and> length (sent w') = 3 \<and>
      map line (sent w') =
        [(GET, ''https://acme.portal.vectra.ai/api/v3/accounts?page=1'', NoData),
         (GET, ''https://acme.portal.vectra.ai/api/v3/accounts?page=2'', NoData),
         (GET, ''https://acme.portal.vectra.ai/api/v3/accounts?page=3'', NoData)])"
proof
  show "\<exists>c' w'. getAllDetections (Some []) brain (world_at 1700000000000 (three_pages ''detections''))
        = (Inr [1, 2, 3, 4, 5], c', w') \<and>
      api w' = [] \<and> length (sent w') = 3 \<and>
      map line (sent w') =
        [(GET, ''https://acme.portal.vectra.ai/api/v3/detections?page=1'', NoData),
         (GET, ''https://acme.portal.vectra.ai/api/v3/detections?page=2'', NoData),
         (GET, ''https://acme.portal.vectra.ai/api/v3/detections?page=3'', NoData)]"
    using page_walk [of "world_at 1700000000000 (three_pages ''detections'')"
        "[(40, [1, 2], ''https://acme.portal.vectra.ai/api/v3/detections?page=2''),
          (40, [3, 4], ''https://acme.portal.vectra.ai/api/v3/detections?page=3'')]"
        40 "[5]" "[]" "Some []" brain]
    by (simp add: world_at_def three_pages_def grants_def brain_def SaasClient_def root_def
        number_to_string_def digits.simps digit_def query_def re_api_v3_def lit_def
        numeral_3_eq_3)
next
  show "\<exists>c' w'. getAllAccounts None brain (world_at 1700000000000 (three_pages ''accounts''))
        = (Inr [1, 2, 3, 4, 5], c', w') \<and>
      api w' = [] \<and> length (sent w') = 3 \<and>
      map line (sent w') =
        [(GET, ''https://acme.portal.vectra.ai/api/v3/accounts?page=1'', NoData),
         (GET, ''https://acme.portal.vectra.ai/api/v3/accounts?page=2'', NoData),
         (GET, ''https://acme.portal.vectra.ai/api/v3/accounts?page=3'', NoData)]"
    using page_walk [of "world_at 1700000000000 (three_pages ''accounts'')"
        "[(40, [1, 2], ''https://acme.portal.vectra.ai/api/v3/accounts?page=2''),
          (40, [3, 4], ''https://acme.portal.vectra.ai/api/v3/accounts?page=3'')]"
        40 "[5]" "[]" None brain]
    by (simp add: world_at_def three_pages_def grants_def brain_def SaasClient_def root_def
        number_to_string_def digits.simps digit_def query_def re_api_v3_def lit_def
        numeral_3_eq_3)
qed

lemma first_class_first_page:
  assumes "\<forall>n. grants (oauth w n)" and "api w = Reply d (PageBody rs None) # rest"
  shows "map line (sent (snd (snd (getAllDetections (Some []) c w)))) =
      map line (sent w) @ [(GET, root c @ ''/detections?page=1'', NoData)]"
    and "map line (sent (snd (snd (getAllAccounts None c w)))) =
      map line (sent w) @ [(GET, root c @ ''/accounts?page=1'', NoData)]"
proof -
  have n: "''/detections?page=1'' \<noteq> []" "''/accounts?page=1'' \<noteq> []" by simp_all
  have a: "api w = map (\<lambda>(d, rs, u). Reply d (PageBody rs (Some u))) []
      @ Reply d (PageBody rs None) # rest"
    using assms(2) by simp
  have l: "list_all (\<lambda>(d, rs, u). u \<noteq> []) ([] :: (nat \<times> 'a list \<times> string) list)" by simp
  from pages_while_walk [OF assms(1) a l n(1), of "[]" c]
  show "map line (sent (snd (snd (getAllDetections (Some []) c w)))) =
      map line (sent w) @ [(GET, root c @ ''/detections?page=1'', NoData)]"
    by (auto simp: getAllDetections_def query_empty re_api_v3_def lit_def)
  from pages_while_walk [OF assms(1) a l n(2), of "[]" c]
  show "map line (sent (snd (snd (getAllAccounts None c w)))) =
      map line (sent w) @ [(GET, root c @ ''/accounts?page=1'', NoData)]"
    by (auto simp: getAllAccounts_def re_api_v3_def lit_def)
qed

section \<open>Checkpoint walks run to the last event\<close>

text \<open>
  The loop on a script that begins with the pages of an event stream: every page but
  the last reports events remaining, the last reports none.
\<close>

lemma changes_while_walk:
  assumes "\<forall>n. grants (oauth w n)"
    and "api w = map (\<lambda>(d, evs, rc, cp). Reply d (EventsBody evs rc cp)) ps
           @ Reply dl (EventsBody evsl rcl cpl) # rest"
    and "list_all (\<lambda>(d, evs, rc, cp). 0 < rc) ps"
    and "rcl \<le> 0"
    and "0 < rc0"
  shows "\<exists>c' w'. changes_while topic rc0 cp0 results c w
        = (Inr (results @ concat (map (\<lambda>(d, evs, rc, cp). evs) ps) @ evsl), c', w') \<and>
      api w' = rest \<and>
      map line (sent w') = map line (sent w)
        @ map (\<lambda>cp. (GET, root c @ topic @ number_to_string cp, NoData))
            (cp0 # map (\<lambda>(d, evs, rc, cp). cp) ps)"
  using assms
proof (induction ps arbitrary: rc0 cp0 results c w)
  case Nil
  from Nil.prems(2) have "api w = Reply dl (EventsBody evsl rcl cpl) # rest" by simp
  from get_reply [OF Nil.prems(1) this, of "topic @ number_to_string cp0" c]
  show ?case using Nil.prems(4,5)
    by (auto simp: changes_while.simps [of topic rc0] changes_while.simps [of topic rcl])
next
  case (Cons p ps)
  obtain d evs rc cp where p: "p = (d, evs, rc, cp)" by (cases p)
  from Cons.prems(2) p have "api w = Reply d (EventsBody evs rc cp)
     # (map (\<lambda>(d, evs, rc, cp). Reply d (EventsBody evs rc cp)) ps
        @ Reply dl (EventsBody evsl rcl cpl) # rest)"
    by simp
  from get_reply [OF Cons.prems(1) this, of "topic @ number_to_string cp0" c]
  obtain c1 w1 where
    g: "get (topic @ number_to_string cp0) c w = (Inr (EventsBody evs rc cp), c1, w1)"
    and fr: "siteURL c1 = siteURL c" "version c1 = version c"
      "api w1 = map (\<lambda>(d, evs, rc, cp). Reply d (EventsBody evs rc cp)) ps
         @ Reply dl (EventsBody evsl rcl cpl) # rest"
      "oauth w1 = oauth w"
      "map line (sent w1) = map line (sent w)
         @ [(GET, root c @ topic @ number_to_string cp0, NoData)]"
    by blast
  have h1: "\<forall>n. grants (oauth w1 n)" using Cons.prems(1) fr(4) by simp
  have h3: "list_all (\<lambda>(d, evs, rc, cp). 0 < rc) ps" and h5: "0 < rc"
    using Cons.prems(3) p by simp_all
  from Cons.IH [OF h1 fr(3) h3 Cons.prems(4) h5, of cp "results @ evs" c1]
  show ?case using g fr Cons.prems(5) p
    by (auto simp: changes_while.simps [of topic rc0] root_def)
qed

text \<open>Requests are only ever added, and the first turn of the loop adds one.\<close>

lemma get_sent_mono: "length (sent w) \<le> length (sent (snd (snd (get u c w))))"
  by (auto simp: get_def snd_catch send_def checkToken_def getToken_def axios_oauth_def
      axios_api_def sleep_def
      split: prod.splits sum.splits list.splits body.splits)

lemma changes_while_sent_mono:
  "length (sent w) \<le> length (sent (snd (snd (changes_while topic rc cp results c w))))"
proof (induction topic rc cp results c w rule: changes_while.induct)
  case (1 topic rc cp results c w)
  show ?case
  proof (cases "0 < rc")
    case False
    then show ?thesis by (simp add: changes_while.simps [of topic rc])
  next
    case True
    obtain r c1 w1 where g: "get (topic @ number_to_string cp) c w = (r, c1, w1)"
      by (cases "get (topic @ number_to_string cp) c w") auto
    have m: "length (sent w) \<le> length (sent w1)"
      using get_sent_mono [of w "topic @ number_to_string cp" c] g by simp
    show ?thesis
    proof (cases r)
      case (Inl e)
      with True g m show ?thesis by (simp add: changes_while.simps [of topic rc])
    next
      case (Inr b)
      show ?thesis
      proof (cases b)
        case (EventsBody evs rc' cp')
        from "1.IH" [OF True g [symmetric] Inr EventsBody refl]
        have "length (sent w1) \<le> length (sent (snd (snd (changes_while topic rc' cp' (results @ evs) c1 w1))))" .
        with True g m Inr EventsBody show ?thesis
          by (simp add: changes_while.simps [of topic rc])
      qed (use True g m Inr in \<open>simp_all add: changes_while.simps [of topic rc]\<close>)
    qed
  qed
qed

lemma changes_while_calls:
  assumes "\<forall>n. grants (oauth w n)" and "0 < rc"
  shows "length (sent w) < length (sent (snd (snd (changes_while topic rc cp results c w))))"
proof -
  obtain r c1 w1 where g: "get (topic @ number_to_string cp) c w = (r, c1, w1)"
    by (cases "get (topic @ number_to_string cp) c w") auto
  have "map line (sent (snd (snd (get (topic @ number_to_string cp) c w)))) =
      map line (sent w) @ [(GET, root c @ topic @ number_to_string cp, NoData)]"
    using send_line [OF assms(1), of GET "topic @ number_to_string cp" NoData c]
    by (simp add: get_def snd_catch)
  then have "length (map line (sent w1)) = length (sent w) + 1" using g by simp
  then have l: "length (sent w) < length (sent w1)" by simp
  show ?thesis
  proof (cases r)
    case (Inl e)
    with assms(2) g l show ?thesis by (simp add: changes_while.simps [of topic rc])
  next
    case (Inr b)
    show ?thesis
    proof (cases b)
      case (EventsBody evs rc' cp')
      from changes_while_sent_mono [of w1 topic rc' cp' "results @ evs" c1] l
      have "length (sent w)
          < length (sent (snd (snd (changes_while topic rc' cp' (results @ evs) c1 w1))))"
        by simp
      with assms(2) g Inr EventsBody show ?thesis
        by (simp add: changes_while.simps [of topic rc])
    qed (use assms(2) g l Inr in \<open>simp_all add: changes_while.simps [of topic rc]\<close>)
  qed
qed

lemma changes_call_at_least_once:
  assumes "\<forall>n. grants (oauth w n)"
  shows "length (sent w) < length (sent (snd (snd (getAccountChanges checkpoint c w))))"
    and "length (sent w) < length (sent (snd (snd (getDetectionChanges checkpoint c w))))"
  using changes_while_calls [OF assms, of 1]
  by (simp_all add: getAccountChanges_def getDetectionChanges_def)

text \<open>
  C2. For every finite sequence of event pages that the API serves, \<open>getAccountChanges\<close>
  and \<open>getDetectionChanges\<close>, started from any checkpoint (0 when none is given), send
  at least one \<open>GET\<close>, go on exactly while the last page reported \<open>remaining_count > 0\<close>,
  send the first request with the caller's checkpoint and every later one with the
  \<open>next_checkpoint\<close> of the page before as its \<open>from\<close>, and return the events of all
  pages, concatenated in the order of arrival. (The token endpoint is assumed to grant.
  That a request is sent whatever the script is \<open>changes_call_at_least_once\<close>.)
\<close>

theorem checkpoint_walk:
  assumes "\<forall>n. grants (oauth w n)"
    and "api w = map (\<lambda>(d, evs, rc, cp). Reply d (EventsBody evs rc cp)) ps
           @ Reply dl (EventsBody evsl rcl cpl) # rest"
    and "list_all (\<lambda>(d, evs, rc, cp). 0 < rc) ps"
    and "rcl \<le> 0"
  shows "(\<exists>c' w'. getAccountChanges checkpoint c w
        = (Inr (concat (map (\<lambda>(d, evs, rc, cp). evs) ps) @ evsl), c', w') \<and>
      api w' = rest \<and> length (sent w') = length (sent w) + length ps + 1 \<and>
      map line (sent w') = map line (sent w)
        @ map (\<lambda>cp. (GET, root c @ ''/events/account_scoring?limit=1000&from=''
                 @ number_to_string cp, NoData))
            ((case checkpoint of None \<Rightarrow> 0 | Some cp \<Rightarrow> cp)
              # map (\<lambda>(d, evs, rc, cp). cp) ps)) \<and>
    (\<exists>c' w'. getDetectionChanges checkpoint c w
        = (Inr (concat (map (\<lambda>(d, evs, rc, cp). evs) ps) @ evsl), c', w') \<and>
      api w' = rest \<and> length (sent w') = length (sent w) + length ps + 1 \<and>
      map line (sent w') = map line (sent w)
        @ map (\<lambda>cp. (GET, root c @ ''/events/account_detection?limit=1000&from=''
                 @ number_to_string cp, NoData))
            ((case checkpoint of None \<Rightarrow> 0 | Some cp \<Rightarrow> cp)
              # map (\<lambda>(d, evs, rc, cp). cp) ps))"
proof
  let ?t = "''/events/account_scoring?limit=1000&from=''"
  let ?cp = "case checkpoint of None \<Rightarrow> 0 | Some cp \<Rightarrow> cp"
  have "(0::int) < 1" by simp
  from changes_while_walk [OF assms this, of ?t ?cp "[]" c] obtain c' w' where
    r: "changes_while ?t 1 ?cp [] c w
        = (Inr (concat (map (\<lambda>(d, evs, rc, cp). evs) ps) @ evsl), c', w')"
      "api w' = rest"
      "map line (sent w') = map line (sent w)
        @ map (\<lambda>cp. (GET, root c @ ?t @ number_to_string cp, NoData))
            (?cp # map (\<lambda>(d, evs, rc, cp). cp) ps)"
    by auto
  from r(3) have "length (map line (sent w')) = length (sent w) + length ps + 1"
    by simp
  then have "length (sent w') = length (sent w) + length ps + 1" by simp
  with r show "\<exists>c' w'. getAccountChanges checkpoint c w
        = (Inr (concat (map (\<lambda>(d, evs, rc, cp). evs) ps) @ evsl), c', w') \<and>
      api w' = rest \<and> length (sent w') = length (sent w) + length ps + 1 \<and>
      map line (sent w') = map line (sent w)
        @ map (\<lambda>cp. (GET, root c @ ?t @ number_to_string cp, NoData))
            (?cp # map (\<lambda>(d, evs, rc, cp). cp) ps)"
    by (simp add: getAccountChanges_def)
next
  let ?t = "''/events/account_detection?limit=1000&from=''"
  let ?cp = "case checkpoint of None \<Rightarrow> 0 | Some cp \<Rightarrow> cp"
  have "(0::int) < 1" by simp
  from changes_while_walk [OF assms this, of ?t ?cp "[]" c] obtain c' w' where
    r: "changes_while ?t 1 ?cp [] c w
        = (Inr (concat (map (\<lambda>(d, evs, rc, cp). evs) ps) @ evsl), c', w')"
      "api w' = rest"
      "map line (sent w') = map line (sent w)
        @ map (\<lambda>cp. (GET, root c @ ?t @ number_to_string cp, NoData))
            (?cp # map (\<lambda>(d, evs, rc, cp). cp) ps)"
    by auto
  from r(3) have "length (map line (sent w')) = length (sent w) + length ps + 1"
    by simp
  then have "length (sent w') = length (sent w) + length ps + 1" by simp
  with r show "\<exists>c' w'. getDetectionChanges checkpoint c w
        = (Inr (concat (map (\<lambda>(d, evs, rc, cp). evs) ps) @ evsl), c', w') \<and>
      api w' = rest \<and> length (sent w') = length (sent w) + length ps + 1 \<and>
      map line (sent w') = map line (sent w)
        @ map (\<lambda>cp. (GET, root c @ ?t @ number_to_string cp, NoData))
            (?cp # map (\<lambda>(d, evs, rc, cp). cp) ps)"
    by (simp add: getDetectionChanges_def)
qed

text \<open>
  The theorem at work on pages that report 5, 3 and 0 remaining events and carry 5, 3
  and 0 events: eight events come back after exactly three requests, the second and
  third of which start from the checkpoints 105 and 108 that the pages before named.
\<close>

theorem checkpoint_walk_witness:
  "(\<exists>c' w'. getAccountChanges (Some 100) brain (world_at 1700000000000 three_event_pages)
        = (Inr [1, 2, 3, 4, 5, 6, 7, 8], c', w') \<and>
      api w' = [] \<and> length (sent w') = 3 \<and>
      map line (sent w') =
        [(GET, ''https://acme.portal.vectra.ai/api/v3/events/account_scoring?limit=1000&from=100'', NoData),
         (GET, ''https://acme.portal.vectra.ai/api/v3/events/account_scoring?limit=1000&from=105'', NoData),
         (GET, ''https://acme.portal.vectra.ai/api/v3/events/account_scoring?limit=1000&from=108'', NoData)]) \<and>
   (\<exists>c' w'. getDetectionChanges None brain (world_at 1700000000000 three_event_pages)
        = (Inr [1, 2, 3, 4, 5, 6, 7, 8], c', w') \<and>
      api w' = [] \<and> length (sent w') = 3 \<and>
      map line (sent w') =
        [(GET, ''https://acme.portal.vectra.ai/api/v3/events/account_detection?limit=1000&from=0'', NoData),
         (GET, ''https://acme.portal.vectra.ai/api/v3/events/account_detection?limit=1000&from=105'', NoData),
         (GET, ''https://acme.portal.vectra.ai/api/v3/events/account_detection?limit=1000&from=108'', NoData)])"
proof
  show "\<exists>c' w'. getAccountChanges (Some 100) brain (world_at 1700000000000 three_event_pages)
        = (Inr [1, 2, 3, 4, 5, 6, 7, 8], c', w') \<and>
      api w' = [] \<and> length (sent w') = 3 \<and>
      map line (sent w') =
        [(GET, ''https://acme.portal.vectra.ai/api/v3/events/account_scoring?limit=1000&from=100'', NoData),
         (GET, ''https://acme.portal.vectra.ai/api/v3/events/account_scoring?limit=1000&from=105'', NoData),
         (GET, ''https://acme.portal.vectra.ai/api/v3/events/account_scoring?limit=1000&from=108'', NoData)]"
    using checkpoint_walk [of "world_at 1700000000000 three_event_pages"
        "[(40, [1, 2, 3, 4, 5], 5, 105), (40, [6, 7, 8], 3, 108)]" 40 "[]" 0 108 "[]"
        "Some 100" brain]
    by (simp add: world_at_def three_event_pages_def grants_def brain_def SaasClient_def
        root_def number_to_string_def digits.simps digit_def numeral_3_eq_3)
next
  show "\<exists>c' w'. getDetectionChanges None brain (world_at 1700000000000 three_event_pages)
        = (Inr [1, 2, 3, 4, 5, 6, 7, 8], c', w') \<and>
      api w' = [] \<and> length (sent w') = 3 \<and>
      map line (sent w') =
        [(GET, ''https://acme.portal.vectra.ai/api/v3/events/account_detection?limit=1000&from=0'', NoData),
         (GET, ''https://acme.portal.vectra.ai/api/v3/events/account_detection?limit=1000&from=105'', NoData),
         (GET, ''https://acme.portal.vectra.ai/api/v3/events/account_detection?limit=1000&from=108'', NoData)]"
    using checkpoint_walk [of "world_at 1700000000000 three_event_pages"
        "[(40, [1, 2, 3, 4, 5], 5, 105), (40, [6, 7, 8], 3, 108)]" 40 "[]" 0 108 "[]"
        None brain]
    by (simp add: world_at_def three_event_pages_def grants_def brain_def SaasClient_def
        root_def number_to_string_def digits.simps digit_def numeral_3_eq_3)
qed

section \<open>The life of the token\<close>

text \<open>
  The token check keeps a token that is held and not past its second, and asks for a new
  one otherwise, whatever the token endpoint then answers.
\<close>

lemma checkToken_held:
  assumes "truthy (token c)" and "\<not> tokenRefresh c < clock w div 1000"
  shows "checkToken c w = (Inr True, c, sleep (sleepTime c) w)"
    and "checkToken2 c w = (Inr True, c, sleep (sleepTime c) w)"
  using assms by (simp_all add: checkToken_def checkToken2_def js_not_iff)

lemma checkToken_exchanges:
  assumes "js_not (token c) \<or> tokenRefresh c < clock w div 1000"
  shows "exchanged (snd (snd (checkToken c w))) = exchanged w @ [token_request c]"
    and "exchanged (snd (snd (checkToken2 c w))) = exchanged w @ [token_request c]"
  using assms
  by (auto simp: checkToken_def checkToken2_def getToken_def getToken2_def axios_oauth_def
      sleep_def split: prod.splits sum.splits body.splits)

text \<open>
  C3. If a token is held and its expiry lies in the future, the token check, in both
  classes, returns \<open>true\<close> without an exchange and leaves the client as it is, so that
  the verb that called it sends the cached token as its credential. Hence two checks in
  a row, the first by a client without a token and the second at any time \<open>t\<close> at which
  the token of the first is still valid, make exactly one exchange in total.
\<close>

theorem valid_token_is_reused:
  assumes "truthy (token c)" and "clock w div 1000 < tokenRefresh c"
  shows "checkToken c w = (Inr True, c, sleep (sleepTime c) w) \<and>
    checkToken2 c w = (Inr True, c, sleep (sleepTime c) w) \<and>
    exchanged (snd (snd (checkToken c w))) = exchanged w \<and>
    exchanged (snd (snd (checkToken2 c w))) = exchanged w \<and>
    sent (snd (snd (send m u b c w))) = sent w @ [api_request m u b c] \<and>
    (js_not (token c0) \<and> checkToken c0 w0 = (r, c, w1) \<and> w = w1\<lparr>clock := t\<rparr> \<longrightarrow>
       exchanged (snd (snd (checkToken c w))) = exchanged w0 @ [token_request c0]) \<and>
    (js_not (token c0) \<and> checkToken2 c0 w0 = (r, c, w1) \<and> w = w1\<lparr>clock := t\<rparr> \<longrightarrow>
       exchanged (snd (snd (checkToken2 c w))) = exchanged w0 @ [token_request c0])"
proof -
  from assms have nr: "\<not> tokenRefresh c < clock w div 1000" by simp
  note held = checkToken_held [OF assms(1) nr]
  have ex: "exchanged (snd (snd (checkToken c w))) = exchanged w"
    "exchanged (snd (snd (checkToken2 c w))) = exchanged w"
    by (simp_all add: held sleep_def)
  have snt: "sent (snd (snd (send m u b c w))) = sent w @ [api_request m u b c]"
    by (simp add: send_def held(1) axios_api_def sleep_def split: list.splits prod.splits)
  have two: "exchanged (snd (snd (checkToken c w))) = exchanged w0 @ [token_request c0]"
    if "js_not (token c0)" "checkToken c0 w0 = (r, c, w1)" "w = w1\<lparr>clock := t\<rparr>"
  proof -
    from checkToken_exchanges(1) [of c0 w0] that(1,2)
    have "exchanged w1 = exchanged w0 @ [token_request c0]" by simp
    moreover have "exchanged (snd (snd (checkToken c w))) = exchanged w"
      by (simp add: held(1) sleep_def)
    moreover have "exchanged w = exchanged w1" using that(3) by simp
    ultimately show ?thesis by simp
  qed
  have two2: "exchanged (snd (snd (checkToken2 c w))) = exchanged w0 @ [token_request c0]"
    if "js_not (token c0)" "checkToken2 c0 w0 = (r, c, w1)" "w = w1\<lparr>clock := t\<rparr>"
  proof -
    from checkToken_exchanges(2) [of c0 w0] that(1,2)
    have "exchanged w1 = exchanged w0 @ [token_request c0]" by simp
    moreover have "exchanged (snd (snd (checkToken2 c w))) = exchanged w"
      by (simp add: held(2) sleep_def)
    moreover have "exchanged w = exchanged w1" using that(3) by simp
    ultimately show ?thesis by simp
  qed
  from held ex snt two two2 show ?thesis by blast
qed

text \<open>
  The theorem at work: the fresh client checks its token, which costs one exchange, and
  checks again 900 seconds later.
\<close>

theorem valid_token_witness:
  "truthy (token keeper) \<and> clock later div 1000 < tokenRefresh keeper \<and>
   checkToken keeper later = (Inr True, keeper, sleep (sleepTime keeper) later) \<and>
   sent (snd (snd (send GET ''/detections/1'' NoData keeper later)))
     = sent later @ [api_request GET ''/detections/1'' NoData keeper] \<and>
   exchanged (snd (snd (checkToken keeper later))) = [token_request brain]"
proof -
  have k: "truthy (token keeper)" "clock later div 1000 < tokenRefresh keeper"
    by (simp_all add: keeper_def later_def first_call_def checkToken_def getToken_def
        axios_oauth_def settle_def sleep_def world_at_def js_not_def truthy_def brain_def
        SaasClient_def)
  have f: "js_not (token brain)"
    by (simp add: js_not_def brain_def SaasClient_def)
  have c: "checkToken brain (world_at 1700000000000 []) = (fst first_call, keeper, snd (snd first_call))"
    by (simp add: keeper_def first_call_def)
  have l: "later = (snd (snd first_call))\<lparr>clock := 1700000900000\<rparr>"
    by (simp add: later_def)
  have e: "exchanged (world_at 1700000000000 []) @ [token_request brain] = [token_request brain]"
    by (simp add: world_at_def)
  note T = valid_token_is_reused [OF k, of GET "''/detections/1''" NoData brain
      "world_at 1700000000000 []" "fst first_call" "snd (snd first_call)" 1700000900000]
  from T have 1: "checkToken keeper later = (Inr True, keeper, sleep (sleepTime keeper) later)"
    by blast
  from T have 2: "sent (snd (snd (send GET ''/detections/1'' NoData keeper later)))
     = sent later @ [api_request GET ''/detections/1'' NoData keeper]"
    by blast
  from T f c l have "exchanged (snd (snd (checkToken keeper later)))
     = exchanged (world_at 1700000000000 []) @ [token_request brain]"
    by blast
  with e have 3: "exchanged (snd (snd (checkToken keeper later))) = [token_request brain]"
    by simp
  from k 1 2 3 show ?thesis by blast
qed

text \<open>
  C4, as the code has it. After every successful exchange the stored expiry is
  \<open>now + expires_in - margin\<close>, where \<open>now\<close> is the clock's whole second when the grant
  arrives and the margin is 100 seconds in the first class and none in the second.
  Nothing is clamped: the stored expiry is not earlier than \<open>now\<close> exactly when
  \<open>expires_in\<close> is at least the margin. (The claim has the expiry clamped to \<open>now\<close> when
  \<open>expires_in\<close> is below the margin.)
\<close>

theorem stored_expiry:
  assumes "oauth w (length (exchanged w)) = Reply d (TokenBody tok expires_in)"
  shows "getToken c w =
      (Inr tok, c\<lparr>tokenRefresh := (clock w + int d) div 1000 + expires_in - 100\<rparr>,
       w\<lparr>clock := clock w + int d, exchanged := exchanged w @ [token_request c]\<rparr>) \<and>
    (clock (snd (snd (getToken c w))) div 1000 \<le> tokenRefresh (fst (snd (getToken c w)))
       \<longleftrightarrow> 100 \<le> expires_in) \<and>
    getToken2 c w =
      (Inr tok, c\<lparr>tokenRefresh := (clock w + int d) div 1000 + expires_in\<rparr>,
       w\<lparr>clock := clock w + int d, exchanged := exchanged w @ [token_request c]\<rparr>) \<and>
    (clock (snd (snd (getToken2 c w))) div 1000 \<le> tokenRefresh (fst (snd (getToken2 c w)))
       \<longleftrightarrow> 0 \<le> expires_in)"
  using assms
  by (simp add: getToken_def getToken2_def axios_oauth_def settle_def)

text \<open>The theorem at work on a token that lives for an hour.\<close>

theorem stored_expiry_witness:
  "tokenRefresh (fst (snd (getToken brain (world_at 1700000000000 [])))) = 1700003500 \<and>
   clock (snd (snd (getToken brain (world_at 1700000000000 [])))) = 1700000000120 \<and>
   clock (snd (snd (getToken brain (world_at 1700000000000 [])))) div 1000
     \<le> tokenRefresh (fst (snd (getToken brain (world_at 1700000000000 [])))) \<and>
   tokenRefresh (fst (snd (getToken2 brain (world_at 1700000000000 [])))) = 1700003600"
  using stored_expiry [of "world_at 1700000000000 []" 120 "''tok''" 3600 brain]
  by (simp add: world_at_def)

text \<open>
  A token that lives for 60 seconds is stored, in the first class, with an expiry 40
  seconds before \<open>now\<close>, where C4 has it clamped to \<open>now\<close> and never earlier.
\<close>

theorem stored_expiry_counterexample:
  "fst (getToken brain short_lived) = Inr ''tok'' \<and>
   tokenRefresh (fst (snd (getToken brain short_lived))) = 1699999960 \<and>
   clock (snd (snd (getToken brain short_lived))) div 1000 = 1700000000 \<and>
   tokenRefresh (fst (snd (getToken brain short_lived)))
     < clock (snd (snd (getToken brain short_lived))) div 1000"
  by (simp add: getToken_def axios_oauth_def settle_def short_lived_def world_at_def)

text \<open>A successful exchange is one that the token endpoint granted.\<close>

lemma getToken_success:
  assumes "getToken c w = (Inr tok, c', w')"
  shows "\<exists>d expires_in. oauth w (length (exchanged w)) = Reply d (TokenBody tok expires_in)"
  using assms
  by (auto simp: getToken_def axios_oauth_def settle_def
      split: prod.splits sum.splits body.splits reply.splits option.splits)

text \<open>
  C5, as the code has it. The token check makes an exchange if and only if no token is
  held or the stored expiry is below the clock's whole second
  (\<open>tokenRefresh < Math.floor(Date.now() / 1000)\<close>); in the second in which the clock
  equals the stored expiry the cached token is used again and no exchange is made. (The
  claim has an exchange in that second.)
\<close>

theorem token_check_exchanges_iff:
  "(exchanged (snd (snd (checkToken c w))) = exchanged w @ [token_request c]
      \<longleftrightarrow> \<not> truthy (token c) \<or> tokenRefresh c < clock w div 1000) \<and>
   (exchanged (snd (snd (checkToken c w))) = exchanged w
      \<longleftrightarrow> truthy (token c) \<and> clock w div 1000 \<le> tokenRefresh c)"
proof (cases "js_not (token c) \<or> tokenRefresh c < clock w div 1000")
  case True
  from checkToken_exchanges(1) [OF True] True show ?thesis
    by (auto simp: js_not_iff)
next
  case False
  then have "truthy (token c)" "\<not> tokenRefresh c < clock w div 1000"
    by (simp_all add: js_not_iff)
  from checkToken_held(1) [OF this] this show ?thesis
    by (auto simp: sleep_def)
qed

text \<open>
  The theorem at work: the fresh client makes an exchange, and the client it becomes
  makes none 900 seconds later.
\<close>

theorem token_check_witness:
  "\<not> truthy (token brain) \<and>
   exchanged (snd (snd (checkToken brain (world_at 1700000000000 [])))) = [token_request brain] \<and>
   truthy (token keeper) \<and> clock later div 1000 \<le> tokenRefresh keeper \<and>
   exchanged (snd (snd (checkToken keeper later))) = exchanged later"
proof -
  have k: "truthy (token keeper)" "clock later div 1000 \<le> tokenRefresh keeper"
    by (simp_all add: keeper_def later_def first_call_def checkToken_def getToken_def
        axios_oauth_def settle_def sleep_def world_at_def js_not_def truthy_def brain_def
        SaasClient_def)
  have f: "\<not> truthy (token brain)" "exchanged (world_at 1700000000000 []) = []"
    by (simp_all add: truthy_def brain_def SaasClient_def world_at_def)
  from token_check_exchanges_iff [of brain "world_at 1700000000000 []"]
    token_check_exchanges_iff [of keeper later] k f
  show ?thesis by simp
qed

text \<open>
  A client whose token expires in the second the clock shows makes no exchange, where C5
  has it refresh the token.
\<close>

theorem token_check_counterexample:
  "truthy (token on_the_second) \<and>
   clock (world_at 1700000000000 []) div 1000 = tokenRefresh on_the_second \<and>
   checkToken on_the_second (world_at 1700000000000 [])
     = (Inr True, on_the_second, sleep 500 (world_at 1700000000000 [])) \<and>
   exchanged (snd (snd (checkToken on_the_second (world_at 1700000000000 [])))) = []"
  by (simp add: checkToken_def on_the_second_def brain_def SaasClient_def world_at_def
      js_not_def truthy_def sleep_def)

end
